theory Spec2Isabelle
  imports Main "HOL-Library.List_Lexorder" "HOL-Library.Char_ord"
begin

section \<open>tools/check\_eof\_newline.py: end-of-file newline checker\<close>

text \<open>
  A shallow embedding of \<^verbatim>\<open>tools/check_eof_newline.py\<close>. Every method of
  \<^verbatim>\<open>EOFNewlineChecker\<close> and \<^verbatim>\<open>main\<close> is a HOL function of the same name.

  \<^item> Bytes and characters are \<^typ>\<open>char\<close> (8 bits); a file's content is a byte list.
  \<^item> A \<^verbatim>\<open>pathlib.Path\<close> is the list of its components below the filesystem root.
  \<^item> The filesystem and standard output are a \<^verbatim>\<open>world\<close> record, passed explicitly.
  \<^item> A Python exception is a value \<open>Inl e\<close> of a sum type; \<open>Inr v\<close> is a normal return.
  \<^item> \<^verbatim>\<open>fnmatch.fnmatch\<close> is a parameter \<open>fnm name pattern\<close> of the functions that call it,
    so that the theorems hold for whatever the library's matcher does.

  What the model leaves out of the Python library: names are byte strings, so
  \<^verbatim>\<open>str.lower\<close> and \<^verbatim>\<open>str.strip\<close> act on ASCII; the list file is taken to decode; a path
  string with exactly two leading slashes is read as an absolute path like any other; an
  operation on a file fails when it opens the file or not at all; the command line is
  given parsed, as \<^verbatim>\<open>argparse\<close> returns it.
\<close>

subsection \<open>Bytes, exceptions, paths\<close>

type_synonym byte = char
type_synonym bytes = "byte list"
type_synonym path = "string list"

definition LF :: byte where "LF = CHR 0x0A"
definition CR :: byte where "CR = CHR 0x0D"
definition NUL :: byte where "NUL = CHR 0x00"

datatype exn = OSError | ValueError

text \<open>
  \<^verbatim>\<open>Path.name\<close>: the final component, the empty string for a path without components.
\<close>

definition path_name :: "path \<Rightarrow> string" where
  "path_name p = (if p = [] then [] else last p)"

text \<open>\<^verbatim>\<open>str.rfind\<close> for one character: the index of its last occurrence.\<close>

fun rfind :: "char \<Rightarrow> string \<Rightarrow> nat option" where
  "rfind c [] = None"
| "rfind c (x # xs) =
     (case rfind c xs of
        Some i \<Rightarrow> Some (Suc i)
      | None \<Rightarrow> if x = c then Some 0 else None)"

text \<open>
  \<^verbatim>\<open>Path.suffix\<close> (pathlib): with \<open>i\<close> the index of the last dot of the name, the suffix
  is \<open>name[i:]\<close> when \<open>0 < i < len(name) - 1\<close>, and empty otherwise.
\<close>

definition suffix_of :: "string \<Rightarrow> string" where
  "suffix_of nm =
     (case rfind (CHR ''.'') nm of
        None \<Rightarrow> []
      | Some i \<Rightarrow> if 0 < i \<and> i < length nm - 1 then drop i nm else [])"

definition path_suffix :: "path \<Rightarrow> string" where
  "path_suffix p = suffix_of (path_name p)"

text \<open>
  \<^verbatim>\<open>Path.with_suffix\<close> (pathlib): raises \<^verbatim>\<open>ValueError\<close> for a suffix holding a separator,
  a suffix that does not start with a dot or is a lone dot, and a path with an empty name.
\<close>

definition with_suffix :: "path \<Rightarrow> string \<Rightarrow> exn + path" where
  "with_suffix p suf =
     (if CHR ''/'' \<in> set suf then Inl ValueError
      else if (suf \<noteq> [] \<and> hd suf \<noteq> CHR ''.'') \<or> suf = ''.'' then Inl ValueError
      else if path_name p = [] then Inl ValueError
      else if path_suffix p = [] then Inr (butlast p @ [path_name p @ suf])
      else Inr (butlast p @
                 [take (length (path_name p) - length (path_suffix p)) (path_name p) @ suf]))"

text \<open>\<^verbatim>\<open>str.lower\<close> on the ASCII letters.\<close>

definition lower_char :: "char \<Rightarrow> char" where
  "lower_char c =
     (if 65 \<le> (of_char c :: nat) \<and> (of_char c :: nat) \<le> 90
      then char_of ((of_char c :: nat) + 32) else c)"

definition lower :: "string \<Rightarrow> string" where
  "lower s = map lower_char s"

text \<open>\<^verbatim>\<open>bytes.endswith\<close> with a tuple of suffixes.\<close>

definition ends_with :: "bytes \<Rightarrow> bytes \<Rightarrow> bool" where
  "ends_with content s =
     (length s \<le> length content \<and> drop (length content - length s) content = s)"

definition endswith :: "bytes \<Rightarrow> bytes list \<Rightarrow> bool" where
  "endswith content sufs = list_ex (ends_with content) sufs"

subsection \<open>The filesystem\<close>

text \<open>
  What \<^verbatim>\<open>os.walk\<close> lists below a directory: its sub-directories, each with its own
  listing, and its file names.
\<close>

datatype dirtree = DirNode (subdirs: "(string \<times> dirtree) list") (filenames: "string list")

text \<open>
  The messages of the program: one constructor for every \<^verbatim>\<open>print\<close> statement (a run of
  \<^verbatim>\<open>print\<close> statements of fixed text is one message), with the values it formats.
\<close>

datatype msg =
    ErrorFixing path exn
  | DetailOk path
  | DetailMissing path
  | FixedOk path
  | FixFailed path
  | ErrProjectRoot path
  | Banner
  | ProjectRootLine path
  | Blank
  | ErrFileList path exn
  | NoFilesFound
  | FoundFiles nat
  | IncludePattern string
  | FilesFrom path
  | ExcludePatterns string
  | ResultsHeader
  | CompliantCount nat
  | MissingCount nat
  | MissingHeader
  | MissingFile path
  | AndMore nat
  | FixHint
  | BackupHint
  | AllCompliant nat
  | AlreadyFixed nat
  | FixingFiles nat
  | CreatingBackups
  | FixedCount nat
  | FailedCount nat
  | SomeNotFixed
  | FixedSummary nat
  | NextSteps

text \<open>
  \<^item> \<open>data\<close>: the regular files and their contents;
  \<^item> \<open>dirs\<close>: the other paths that exist (directories);
  \<^item> \<open>unreadable\<close>, \<open>unwritable\<close>: the paths whose \<^verbatim>\<open>open\<close> for reading, for writing,
    raises \<^verbatim>\<open>OSError\<close> (permissions, a missing parent directory);
  \<^item> \<open>listing\<close>: what \<^verbatim>\<open>os.walk\<close> yields from the project root;
  \<^item> \<open>writes\<close>: the paths written so far, in order;
  \<^item> \<open>stdout\<close>: the lines printed so far.

  A failing operation leaves its target as it was; file metadata is not modelled.
\<close>

record world =
  data :: "path \<rightharpoonup> bytes"
  dirs :: "path set"
  unreadable :: "path set"
  unwritable :: "path set"
  listing :: dirtree
  writes :: "path list"
  stdout :: "msg list"

text \<open>
  \<^verbatim>\<open>open(p, 'rb')\<close> and the reads that follow: the whole content, from which the caller
  takes the part it reads. A missing file, a directory and an unreadable file raise
  \<^verbatim>\<open>OSError\<close>.
\<close>

definition open_rb :: "world \<Rightarrow> path \<Rightarrow> exn + bytes" where
  "open_rb w p =
     (if p \<in> unreadable w then Inl OSError
      else case data w p of None \<Rightarrow> Inl OSError | Some content \<Rightarrow> Inr content)"

text \<open>
  \<^verbatim>\<open>open(p, 'wb')\<close> followed by one \<^verbatim>\<open>write\<close>: creates or replaces the file. A directory
  and an unwritable path raise \<^verbatim>\<open>OSError\<close>.
\<close>

definition store :: "path \<Rightarrow> bytes \<Rightarrow> world \<Rightarrow> world" where
  "store p content w = w\<lparr>data := (data w)(p \<mapsto> content), writes := writes w @ [p]\<rparr>"

definition write_wb :: "path \<Rightarrow> bytes \<Rightarrow> world \<Rightarrow> (exn + unit) \<times> world" where
  "write_wb p content w =
     (if p \<in> unwritable w \<or> p \<in> dirs w then (Inl OSError, w)
      else (Inr (), store p content w))"

text \<open>
  \<^verbatim>\<open>shutil.copy2\<close>: when \<open>dst\<close> is a directory the target is the file in it with the base
  name of the source, else \<open>dst\<close> itself. \<^verbatim>\<open>SameFileError\<close> (an \<^verbatim>\<open>OSError\<close>) when source and
  target are the same file, else the source is read and the target written.
\<close>

definition copy2 :: "path \<Rightarrow> path \<Rightarrow> world \<Rightarrow> (exn + unit) \<times> world" where
  "copy2 src dst w =
     (let target = (if dst \<in> dirs w then dst @ [path_name src] else dst) in
      if src = target then (Inl OSError, w)
      else case open_rb w src of
             Inl e \<Rightarrow> (Inl e, w)
           | Inr content \<Rightarrow> write_wb target content w)"

definition print :: "msg \<Rightarrow> world \<Rightarrow> world" where
  "print m w = w\<lparr>stdout := stdout w @ [m]\<rparr>"

subsection \<open>EOFNewlineChecker\<close>

definition text_extensions :: "string set" where
  "text_extensions = set
     [''.cpp'', ''.hpp'', ''.cc'', ''.cxx'', ''.hxx'', ''.h'', ''.c'',
      ''.py'', ''.pyx'', ''.pyi'',
      ''.js'', ''.ts'', ''.jsx'', ''.tsx'',
      ''.css'', ''.scss'', ''.sass'', ''.less'',
      ''.html'', ''.htm'', ''.xml'', ''.svg'',
      ''.json'', ''.yaml'', ''.yml'', ''.toml'',
      ''.md'', ''.rst'', ''.txt'',
      ''.sh'', ''.bash'', ''.zsh'', ''.fish'',
      ''.cmake'', ''.cmake.in'',
      ''.proto'', ''.capnp'',
      ''.sql'', ''.sqlite'',
      ''.conf'', ''.cfg'', ''.ini'',
      ''.gitignore'', ''.gitattributes'']"

definition special_files :: "string set" where
  "special_files = set
     [''Makefile'', ''CMakeLists.txt'', ''Dockerfile'', ''Vagrantfile'',
      ''Jenkinsfile'', ''Pipfile'', ''requirements.txt'', ''setup.py'',
      ''pyproject.toml'', ''package.json'', ''tsconfig.json'']"

text \<open>
  \<^verbatim>\<open>should_check_file\<close>. The \<^verbatim>\<open>try\<close> block is the inner \<^verbatim>\<open>case\<close>; the outer one is
  \<^verbatim>\<open>except (OSError, IOError)\<close>, which lets any other exception through.
\<close>

definition should_check_file :: "world \<Rightarrow> path \<Rightarrow> exn + bool" where
  "should_check_file w file_path =
     (if lower (path_suffix file_path) \<in> text_extensions then Inr True
      else if path_name file_path \<in> special_files then Inr True
      else case (case open_rb w file_path of
                   Inl e \<Rightarrow> Inl e
                 | Inr content \<Rightarrow>
                     (let sample = take 1024 content
                      in if sample = [] then Inr True
                         else Inr (NUL \<notin> set sample)))
           of Inl OSError \<Rightarrow> Inr False
            | Inl e \<Rightarrow> Inl e
            | Inr b \<Rightarrow> Inr b)"

text \<open>
  \<^verbatim>\<open>has_eof_newline\<close>. \<^verbatim>\<open>f.seek(0, 2); f.tell()\<close> is the content's length, and
  \<^verbatim>\<open>f.seek(-1, 2); f.read(1)\<close> the byte string of its last byte.
\<close>

definition has_eof_newline :: "world \<Rightarrow> path \<Rightarrow> exn + bool" where
  "has_eof_newline w file_path =
     (case (case open_rb w file_path of
              Inl e \<Rightarrow> Inl e
            | Inr content \<Rightarrow>
                if length content = 0 then Inr True
                else (let last_char = take 1 (drop (length content - 1) content)
                      in Inr (last_char \<in> set [[LF], [CR, LF], [CR]])))
      of Inl OSError \<Rightarrow> Inr False
       | Inl e \<Rightarrow> Inl e
       | Inr b \<Rightarrow> Inr b)"

subsection \<open>Sequencing of effects\<close>

text \<open>
  A statement that may raise and may change the world is a function from the world to
  a result and the next world; \<open>io_bind\<close> runs the rest of a block after a statement that
  did not raise.
\<close>

type_synonym 'a io = "world \<Rightarrow> (exn + 'a) \<times> world"

definition io_return :: "'a \<Rightarrow> 'a io" where
  "io_return x w = (Inr x, w)"

definition io_of :: "exn + 'a \<Rightarrow> 'a io" where
  "io_of r w = (r, w)"

definition io_bind :: "'a io \<Rightarrow> ('a \<Rightarrow> 'b io) \<Rightarrow> 'b io" where
  "io_bind m f w = (case m w of (Inl e, w') \<Rightarrow> (Inl e, w') | (Inr x, w') \<Rightarrow> f x w')"

definition io_when :: "bool \<Rightarrow> unit io \<Rightarrow> unit io" where
  "io_when b m = (if b then m else io_return ())"

definition io_print :: "msg \<Rightarrow> unit io" where
  "io_print m w = (Inr (), print m w)"

fun io_prints :: "msg list \<Rightarrow> unit io" where
  "io_prints [] w = (Inr (), w)"
| "io_prints (m # ms) w = io_prints ms (print m w)"

definition io_read :: "path \<Rightarrow> bytes io" where
  "io_read p w = (open_rb w p, w)"

text \<open>\<^verbatim>\<open>try: body except (OSError, IOError) as e: handler\<close>.\<close>

definition except_OSError :: "'a io \<Rightarrow> (exn \<Rightarrow> 'a io) \<Rightarrow> 'a io" where
  "except_OSError body handler w =
     (case body w of
        (Inl OSError, w') \<Rightarrow> handler OSError w'
      | (Inl e, w') \<Rightarrow> (Inl e, w')
      | (Inr x, w') \<Rightarrow> (Inr x, w'))"

subsection \<open>fix\_eof\_newline\<close>

definition fix_eof_newline :: "path \<Rightarrow> bool \<Rightarrow> bool io" where
  "fix_eof_newline file_path create_backup =
     except_OSError
       (io_bind
          (io_when create_backup
             (io_bind (io_of (with_suffix file_path (path_suffix file_path @ ''.bak'')))
                (\<lambda>backup_path. copy2 file_path backup_path)))
          (\<lambda>_. io_bind (io_read file_path)
             (\<lambda>content.
                if content = [] then io_return True
                else if endswith content [[LF], [CR, LF], [CR]] then io_return True
                else io_bind (write_wb file_path (content @ [LF])) (\<lambda>_. io_return True))))
       (\<lambda>e. io_bind (io_print (ErrorFixing file_path e)) (\<lambda>_. io_return False))"

subsection \<open>discover\_files\<close>

text \<open>
  \<^verbatim>\<open>Path.relative_to\<close>: the components below \<open>other\<close>, \<^verbatim>\<open>ValueError\<close> when the path does
  not start with \<open>other\<close>. \<^verbatim>\<open>str\<close> of a relative path joins its components with a slash.
\<close>

definition relative_to :: "path \<Rightarrow> path \<Rightarrow> exn + path" where
  "relative_to p other =
     (if take (length other) p = other then Inr (drop (length other) p) else Inl ValueError)"

fun join_path :: "path \<Rightarrow> string" where
  "join_path [] = []"
| "join_path [c] = c"
| "join_path (c # d # cs) = c @ ''/'' @ join_path (d # cs)"

definition str_path :: "path \<Rightarrow> string" where
  "str_path rel = (if rel = [] then ''.'' else join_path rel)"

definition default_excludes :: "string list" where
  "default_excludes =
     [''build'', ''cmake-build-*'', ''_deps'', ''CMakeFiles'',
      ''.git'', ''.svn'', ''.hg'', ''.bzr'',
      ''__pycache__'', ''*.pyc'', ''*.pyo'', ''*.pyd'',
      ''*.so'', ''*.dll'', ''*.dylib'', ''*.exe'',
      ''*.o'', ''*.obj'', ''*.a'', ''*.lib'',
      ''*.png'', ''*.jpg'', ''*.jpeg'', ''*.gif'', ''*.bmp'', ''*.ico'',
      ''*.pdf'', ''*.zip'', ''*.tar'', ''*.gz'', ''*.bz2'',
      ''node_modules'', ''.venv'', ''venv'', ''.env'',
      ''.idea'', ''.vscode'', ''*.swp'', ''*.swo'', ''*~'']"

text \<open>
  The include test of one file: \<^verbatim>\<open>any(fnmatch(filename, pattern) or
  fnmatch(str(file_path.relative_to(project_root)), pattern) for pattern in include_patterns)\<close>,
  evaluated left to right.
\<close>

fun included :: "(string \<Rightarrow> string \<Rightarrow> bool) \<Rightarrow> path \<Rightarrow> string \<Rightarrow> path \<Rightarrow> string list \<Rightarrow> exn + bool" where
  "included fnm project_root filename file_path [] = Inr False"
| "included fnm project_root filename file_path (pattern # rest) =
     (if fnm filename pattern then Inr True
      else case relative_to file_path project_root of
             Inl e \<Rightarrow> Inl e
           | Inr rel \<Rightarrow>
               if fnm (str_path rel) pattern then Inr True
               else included fnm project_root filename file_path rest)"

text \<open>The loop \<^verbatim>\<open>for filename in filenames\<close> of one directory \<open>root\<close>.\<close>

fun scan_files ::
  "(string \<Rightarrow> string \<Rightarrow> bool) \<Rightarrow> world \<Rightarrow> path \<Rightarrow> string list \<Rightarrow> string list \<Rightarrow>
     path \<Rightarrow> string list \<Rightarrow> path list \<Rightarrow> exn + path list" where
  "scan_files fnm w project_root include_patterns exclude_patterns root [] files = Inr files"
| "scan_files fnm w project_root include_patterns exclude_patterns root (filename # rest) files =
     (let file_path = root @ [filename] in
      if list_ex (\<lambda>pattern. fnm filename pattern) exclude_patterns
      then scan_files fnm w project_root include_patterns exclude_patterns root rest files
      else case included fnm project_root filename file_path include_patterns of
             Inl e \<Rightarrow> Inl e
           | Inr inc \<Rightarrow>
               if \<not> inc
               then scan_files fnm w project_root include_patterns exclude_patterns root rest files
               else case should_check_file w file_path of
                      Inl e \<Rightarrow> Inl e
                    | Inr chk \<Rightarrow>
                        if chk
                        then scan_files fnm w project_root include_patterns exclude_patterns
                               root rest (files @ [file_path])
                        else scan_files fnm w project_root include_patterns exclude_patterns
                               root rest files)"

text \<open>
  \<^verbatim>\<open>dirs[:] = [d for d in dirs if not any(fnmatch(d, pattern) ...)]\<close>: the directories
  that \<^verbatim>\<open>os.walk\<close> goes on to visit.
\<close>

definition prune :: "(string \<Rightarrow> string \<Rightarrow> bool) \<Rightarrow> string list \<Rightarrow> (string \<times> dirtree) list \<Rightarrow> (string \<times> dirtree) list" where
  "prune fnm exclude_patterns ds =
     filter (\<lambda>d. \<not> list_ex (\<lambda>pattern. fnm (fst d) pattern) exclude_patterns) ds"

lemma size_prune_le:
  "size_list (size_prod (\<lambda>_. 0) size) (prune fnm exc ds)
     \<le> size_list (size_prod (\<lambda>_. 0) size) ds"
  unfolding prune_def by (induction ds) auto

text \<open>
  The loop over \<^verbatim>\<open>os.walk(project_root)\<close>, top-down: the body runs on a directory, then
  the walk visits the directories the body left in \<^verbatim>\<open>dirs\<close>, in order.
\<close>

function walk ::
  "(string \<Rightarrow> string \<Rightarrow> bool) \<Rightarrow> world \<Rightarrow> path \<Rightarrow> string list \<Rightarrow> string list \<Rightarrow>
     path \<Rightarrow> dirtree \<Rightarrow> path list \<Rightarrow> exn + path list"
and walk_dirs ::
  "(string \<Rightarrow> string \<Rightarrow> bool) \<Rightarrow> world \<Rightarrow> path \<Rightarrow> string list \<Rightarrow> string list \<Rightarrow>
     path \<Rightarrow> (string \<times> dirtree) list \<Rightarrow> path list \<Rightarrow> exn + path list" where
  "walk fnm w project_root include_patterns exclude_patterns root (DirNode ds fns) files =
     (case scan_files fnm w project_root include_patterns exclude_patterns root fns files of
        Inl e \<Rightarrow> Inl e
      | Inr files' \<Rightarrow>
          walk_dirs fnm w project_root include_patterns exclude_patterns root
            (prune fnm exclude_patterns ds) files')"
| "walk_dirs fnm w project_root include_patterns exclude_patterns root [] files = Inr files"
| "walk_dirs fnm w project_root include_patterns exclude_patterns root (d # rest) files =
     (case walk fnm w project_root include_patterns exclude_patterns (root @ [fst d]) (snd d) files of
        Inl e \<Rightarrow> Inl e
      | Inr files' \<Rightarrow>
          walk_dirs fnm w project_root include_patterns exclude_patterns root rest files')"
  by pat_completeness auto

termination
  apply (relation "measure (\<lambda>x. case x of
      Inl (fnm, w, pr, inc, exc, root, t, files) \<Rightarrow> 2 * size t
    | Inr (fnm, w, pr, inc, exc, root, ds, files) \<Rightarrow>
        2 * size_list (size_prod (\<lambda>_. 0) size) ds + 1)")
     apply simp
  subgoal for fnm w pr inc exc root ds fns files
    using size_prune_le[of fnm exc ds] by simp
  subgoal for fnm w pr inc exc root d rest files
    by (cases d) simp
  subgoal by simp
  done

text \<open>
  \<^verbatim>\<open>discover_files\<close>. \<^verbatim>\<open>x or default\<close> takes the default for \<^verbatim>\<open>None\<close> and for an empty
  list. \<^verbatim>\<open>sorted\<close> orders paths by their components, component by component.
\<close>

definition discover_files ::
  "(string \<Rightarrow> string \<Rightarrow> bool) \<Rightarrow> world \<Rightarrow> path \<Rightarrow> string list option \<Rightarrow> string list option \<Rightarrow>
     exn + path list" where
  "discover_files fnm w project_root include_patterns exclude_patterns =
     (let exclude_patterns' =
            (case exclude_patterns of None \<Rightarrow> [] | Some ps \<Rightarrow> ps) @ default_excludes;
          include_patterns' =
            (case include_patterns of
               None \<Rightarrow> [''*'']
             | Some ps \<Rightarrow> if ps = [] then [''*''] else ps)
      in case walk fnm w project_root include_patterns' exclude_patterns'
                project_root (listing w) [] of
           Inl e \<Rightarrow> Inl e
         | Inr files \<Rightarrow> Inr (sort files))"

subsection \<open>check\_files and fix\_files\<close>

fun check_files_loop ::
  "path \<Rightarrow> bool \<Rightarrow> path list \<Rightarrow> path list \<Rightarrow> path list \<Rightarrow> (path list \<times> path list) io" where
  "check_files_loop project_root show_details [] compliant_files non_compliant_files w =
     (Inr (compliant_files, non_compliant_files), w)"
| "check_files_loop project_root show_details (file_path # rest)
       compliant_files non_compliant_files w =
     (case has_eof_newline w file_path of
        Inl e \<Rightarrow> (Inl e, w)
      | Inr ok \<Rightarrow>
          if ok then
            io_bind
              (io_when show_details
                 (io_bind (io_of (relative_to file_path project_root))
                    (\<lambda>rel. io_print (DetailOk rel))))
              (\<lambda>_ w'. check_files_loop project_root show_details rest
                         (compliant_files @ [file_path]) non_compliant_files w') w
          else
            io_bind
              (io_when show_details
                 (io_bind (io_of (relative_to file_path project_root))
                    (\<lambda>rel. io_print (DetailMissing rel))))
              (\<lambda>_ w'. check_files_loop project_root show_details rest
                         compliant_files (non_compliant_files @ [file_path]) w') w)"

definition check_files :: "path \<Rightarrow> path list \<Rightarrow> bool \<Rightarrow> (path list \<times> path list) io" where
  "check_files project_root files show_details =
     check_files_loop project_root show_details files [] []"

fun fix_files_loop :: "path \<Rightarrow> bool \<Rightarrow> path list \<Rightarrow> nat \<Rightarrow> nat \<Rightarrow> (nat \<times> nat) io" where
  "fix_files_loop project_root create_backup [] success_count error_count w =
     (Inr (success_count, error_count), w)"
| "fix_files_loop project_root create_backup (file_path # rest) success_count error_count w =
     io_bind (fix_eof_newline file_path create_backup)
       (\<lambda>ok.
          if ok then
            io_bind (io_bind (io_of (relative_to file_path project_root))
                       (\<lambda>rel. io_print (FixedOk rel)))
              (\<lambda>_ w'. fix_files_loop project_root create_backup rest
                         (success_count + 1) error_count w')
          else
            io_bind (io_bind (io_of (relative_to file_path project_root))
                       (\<lambda>rel. io_print (FixFailed rel)))
              (\<lambda>_ w'. fix_files_loop project_root create_backup rest
                         success_count (error_count + 1) w')) w"

definition fix_files :: "path \<Rightarrow> path list \<Rightarrow> bool \<Rightarrow> (nat \<times> nat) io" where
  "fix_files project_root files create_backup =
     fix_files_loop project_root create_backup files 0 0"

subsection \<open>main\<close>

text \<open>
  The parsed command line. \<^verbatim>\<open>--check\<close> and \<^verbatim>\<open>--fix\<close> form a required, mutually exclusive
  group, so exactly one of them is set.
\<close>

datatype action = Check | Fix

record args =
  action :: action
  filter_arg :: "string option"
  filter_from_file :: "path option"
  exclude :: "string option"
  backup :: bool
  show_details :: bool
  quiet :: bool

text \<open>\<^verbatim>\<open>str.split(sep)\<close> for a separator of one character, given as a predicate.\<close>

fun split_at :: "(char \<Rightarrow> bool) \<Rightarrow> string \<Rightarrow> string list" where
  "split_at sep [] = [[]]"
| "split_at sep (c # cs) =
     (if sep c then [] # split_at sep cs
      else case split_at sep cs of
             [] \<Rightarrow> [[c]]
           | l # ls \<Rightarrow> (c # l) # ls)"

text \<open>\<^verbatim>\<open>str.strip()\<close>: the ASCII white space is tab to carriage return, FS to US, and space.\<close>

definition is_space :: "char \<Rightarrow> bool" where
  "is_space c =
     ((9 \<le> (of_char c :: nat) \<and> (of_char c :: nat) \<le> 13) \<or>
      (28 \<le> (of_char c :: nat) \<and> (of_char c :: nat) \<le> 32))"

definition strip :: "string \<Rightarrow> string" where
  "strip s = rev (dropWhile is_space (rev (dropWhile is_space s)))"

text \<open>
  The lines of a file opened in text mode, as the list file is read:
  \<^verbatim>\<open>[line.strip() for line in f if line.strip()]\<close>. A line ends at a line feed or a
  carriage return.
\<close>

definition stripped_lines :: "string \<Rightarrow> string list" where
  "stripped_lines txt =
     filter (\<lambda>l. l \<noteq> []) (map strip (split_at (\<lambda>c. c = LF \<or> c = CR) txt))"

text \<open>
  \<^verbatim>\<open>Path(s)\<close> for a string: its components, without the empty ones and the single dots;
  \<^verbatim>\<open>is_absolute\<close>: the string starts with a slash.
\<close>

definition path_parts :: "string \<Rightarrow> path" where
  "path_parts s = filter (\<lambda>c. c \<noteq> [] \<and> c \<noteq> ''.'') (split_at (\<lambda>c. c = CHR ''/'') s)"

definition is_absolute :: "string \<Rightarrow> bool" where
  "is_absolute s = (s \<noteq> [] \<and> hd s = CHR ''/'')"

definition path_exists :: "world \<Rightarrow> path \<Rightarrow> bool" where
  "path_exists w p = (data w p \<noteq> None \<or> p \<in> dirs w)"

text \<open>The loop \<^verbatim>\<open>for file_path in file_list\<close> of the \<^verbatim>\<open>--filter-from-file\<close> branch.\<close>

fun file_list_loop :: "world \<Rightarrow> path \<Rightarrow> string list \<Rightarrow> path list \<Rightarrow> exn + path list" where
  "file_list_loop w project_root [] files_to_check = Inr files_to_check"
| "file_list_loop w project_root (file_path # rest) files_to_check =
     (let abs_path = (if \<not> is_absolute file_path then project_root @ path_parts file_path
                      else path_parts file_path) in
      if path_exists w abs_path then
        (case should_check_file w abs_path of
           Inl e \<Rightarrow> Inl e
         | Inr chk \<Rightarrow>
             if chk then file_list_loop w project_root rest (files_to_check @ [abs_path])
             else file_list_loop w project_root rest files_to_check)
      else file_list_loop w project_root rest files_to_check)"

text \<open>
  The selection of \<^verbatim>\<open>files_to_check\<close>: the body of the \<^verbatim>\<open>try\<close> block when
  \<^verbatim>\<open>--filter-from-file\<close> is given, else the call of \<^verbatim>\<open>discover_files\<close>. \<open>Inl e\<close> is an
  exception raised on the way.
\<close>

definition files_to_check :: "(string \<Rightarrow> string \<Rightarrow> bool) \<Rightarrow> path \<Rightarrow> args \<Rightarrow> world \<Rightarrow> exn + path list" where
  "files_to_check fnm project_root a w =
     (let include_patterns =
            (case filter_arg a of
               None \<Rightarrow> None
             | Some f \<Rightarrow> if f = [] then None else Some [f]);
          exclude_patterns =
            (case exclude a of
               None \<Rightarrow> None
             | Some x \<Rightarrow> if x = [] then None else Some (split_at (\<lambda>c. c = CHR '','') x))
      in case filter_from_file a of
           Some list_file \<Rightarrow>
             (case open_rb w list_file of
                Inl e \<Rightarrow> Inl e
              | Inr txt \<Rightarrow> file_list_loop w project_root (stripped_lines txt) [])
         | None \<Rightarrow> discover_files fnm w project_root include_patterns exclude_patterns)"

text \<open>The loop that prints the first non-compliant files, relative to the project root.\<close>

fun print_missing :: "path \<Rightarrow> path list \<Rightarrow> unit io" where
  "print_missing project_root [] w = (Inr (), w)"
| "print_missing project_root (file_path # rest) w =
     io_bind (io_bind (io_of (relative_to file_path project_root))
                (\<lambda>rel. io_print (MissingFile rel)))
       (\<lambda>_ w'. print_missing project_root rest w') w"

text \<open>The branch \<^verbatim>\<open>if args.check\<close>; the result is the argument of \<^verbatim>\<open>sys.exit\<close>.\<close>

definition check_action :: "path \<Rightarrow> args \<Rightarrow> path list \<Rightarrow> nat io" where
  "check_action project_root a files =
     io_bind (check_files project_root files (show_details a))
       (\<lambda>(compliant_files, non_compliant_files).
          io_bind
            (io_when (\<not> quiet a)
               (io_prints [ResultsHeader, CompliantCount (length compliant_files),
                           MissingCount (length non_compliant_files)]))
            (\<lambda>_.
               if non_compliant_files \<noteq> [] then
                 io_bind
                   (io_when (\<not> show_details a \<and> \<not> quiet a)
                      (io_bind (io_print MissingHeader)
                         (\<lambda>_. io_bind (print_missing project_root (take 10 non_compliant_files))
                            (\<lambda>_. io_when (10 < length non_compliant_files)
                                    (io_print (AndMore (length non_compliant_files - 10)))))))
                   (\<lambda>_. io_bind (io_print FixHint)
                      (\<lambda>_. io_bind (io_when (\<not> backup a) (io_print BackupHint))
                         (\<lambda>_. io_return 1)))
               else
                 io_bind (io_when (\<not> quiet a) (io_print (AllCompliant (length files))))
                   (\<lambda>_. io_return 0)))"

text \<open>The branch \<^verbatim>\<open>elif args.fix\<close>.\<close>

definition fix_action :: "path \<Rightarrow> args \<Rightarrow> path list \<Rightarrow> nat io" where
  "fix_action project_root a files =
     io_bind (check_files project_root files False)
       (\<lambda>(_, files_to_fix).
          if files_to_fix = [] then
            io_bind (io_print (AlreadyFixed (length files))) (\<lambda>_. io_return 0)
          else
            io_bind
              (io_when (\<not> quiet a)
                 (io_bind (io_print (FixingFiles (length files_to_fix)))
                    (\<lambda>_. io_bind (io_when (backup a) (io_print CreatingBackups))
                       (\<lambda>_. io_print Blank))))
              (\<lambda>_. io_bind (fix_files project_root files_to_fix (backup a))
                 (\<lambda>(success_count, error_count).
                    io_bind
                      (io_when (\<not> quiet a)
                         (io_bind (io_prints [ResultsHeader, FixedCount success_count])
                            (\<lambda>_. io_when (0 < error_count) (io_print (FailedCount error_count)))))
                      (\<lambda>_.
                         if 0 < error_count then
                           io_bind (io_print SomeNotFixed) (\<lambda>_. io_return 1)
                         else
                           io_bind (io_print (FixedSummary success_count))
                             (\<lambda>_. io_bind (io_when (\<not> quiet a) (io_print NextSteps))
                                (\<lambda>_. io_return 0))))))"

text \<open>
  \<^verbatim>\<open>main\<close>. \<open>project_root\<close> is the parent of the directory of the script. The result
  \<open>Inr n\<close> is \<^verbatim>\<open>sys.exit(n)\<close>; \<open>Inl e\<close> is an exception that nothing catches.
\<close>

definition main :: "(string \<Rightarrow> string \<Rightarrow> bool) \<Rightarrow> path \<Rightarrow> args \<Rightarrow> nat io" where
  "main fnm project_root a w =
     (if \<not> path_exists w (project_root @ [''CMakeLists.txt'']) then
        io_bind (io_print (ErrProjectRoot project_root)) (\<lambda>_. io_return 1) w
      else
        io_bind
          (io_when (\<not> quiet a) (io_prints [Banner, ProjectRootLine project_root, Blank]))
          (\<lambda>_ w1.
             case files_to_check fnm project_root a w1 of
               Inl e \<Rightarrow>
                 (case filter_from_file a of
                    Some list_file \<Rightarrow>
                      io_bind (io_print (ErrFileList list_file e)) (\<lambda>_. io_return 1) w1
                  | None \<Rightarrow> (Inl e, w1))
             | Inr files \<Rightarrow>
                 if files = [] then
                   io_bind (io_print NoFilesFound) (\<lambda>_. io_return 0) w1
                 else
                   io_bind
                     (io_when (\<not> quiet a)
                        (io_bind (io_print (FoundFiles (length files)))
                           (\<lambda>_. io_bind
                                  (case filter_arg a of
                                     None \<Rightarrow> io_return ()
                                   | Some f \<Rightarrow> io_when (f \<noteq> []) (io_print (IncludePattern f)))
                              (\<lambda>_. io_bind
                                     (case filter_from_file a of
                                        None \<Rightarrow> io_return ()
                                      | Some list_file \<Rightarrow> io_print (FilesFrom list_file))
                                 (\<lambda>_. io_bind
                                        (case exclude a of
                                           None \<Rightarrow> io_return ()
                                         | Some x \<Rightarrow>
                                             io_when (x \<noteq> []) (io_print (ExcludePatterns x)))
                                    (\<lambda>_. io_print Blank))))))
                     (\<lambda>_. case action a of
                            Check \<Rightarrow> check_action project_root a files
                          | Fix \<Rightarrow> fix_action project_root a files) w1) w)"

text \<open>The exit status of the process: an uncaught exception ends it with status 1.\<close>

definition exit_status :: "exn + nat \<Rightarrow> nat" where
  "exit_status r = (case r of Inl e \<Rightarrow> 1 | Inr n \<Rightarrow> n)"

subsection \<open>Notions of the specification\<close>

text \<open>
  A path that names a file: it has a final component, and that component, being one
  component, holds no separator.
\<close>

definition names_file :: "path \<Rightarrow> bool" where
  "names_file p = (path_name p \<noteq> [] \<and> CHR ''/'' \<notin> set (path_name p))"

text \<open>The backup path of the specification: the same path with \<^verbatim>\<open>.bak\<close> appended.\<close>

definition backup_path :: "path \<Rightarrow> path" where
  "backup_path p = butlast p @ [path_name p @ ''.bak'']"

text \<open>
  The world after the backup copy of a file with the given content, when a backup is asked
  for.
\<close>

definition backed_up :: "bool \<Rightarrow> path \<Rightarrow> bytes \<Rightarrow> world \<Rightarrow> world" where
  "backed_up create_backup p content w =
     (if create_backup then store (backup_path p) content w else w)"

text \<open>A path lies under the project root when the root's components start it.\<close>

definition under_root :: "path \<Rightarrow> path \<Rightarrow> bool" where
  "under_root project_root p = (take (length project_root) p = project_root)"

text \<open>
  The traversal of the specification: the files of the listing, as paths relative to its
  root, in the order of a top-down walk that does not enter a directory whose name matches
  an exclude glob.
\<close>

fun walked :: "(string \<Rightarrow> string \<Rightarrow> bool) \<Rightarrow> string list \<Rightarrow> dirtree \<Rightarrow> path list" where
  "walked fnm exclude_patterns (DirNode ds fns) =
     map (\<lambda>f. [f]) fns @
     concat (map (\<lambda>d. map (\<lambda>rel. fst d # rel) (walked fnm exclude_patterns (snd d)))
               (filter (\<lambda>d. \<not> list_ex (\<lambda>pattern. fnm (fst d) pattern) exclude_patterns) ds))"

text \<open>
  The file filter of the specification, on a path relative to the project root: the bare
  name matches no exclude glob, the name or the relative path matches an include glob, and
  the file is checkable.
\<close>

definition keeps ::
  "(string \<Rightarrow> string \<Rightarrow> bool) \<Rightarrow> world \<Rightarrow> path \<Rightarrow> string list \<Rightarrow> string list \<Rightarrow> path \<Rightarrow> bool" where
  "keeps fnm w project_root include_patterns exclude_patterns rel =
     (\<not> list_ex (\<lambda>pattern. fnm (last rel) pattern) exclude_patterns \<and>
      list_ex (\<lambda>pattern. fnm (last rel) pattern \<or> fnm (str_path rel) pattern) include_patterns \<and>
      should_check_file w (project_root @ rel) = Inr True)"

text \<open>
  The glob lists \<^verbatim>\<open>discover_files\<close> works with: the caller's exclude globs followed by the
  built-in ones, and the caller's include globs or, when there are none, \<^verbatim>\<open>*\<close>.
\<close>

definition all_excludes :: "string list option \<Rightarrow> string list" where
  "all_excludes exclude_patterns =
     (case exclude_patterns of None \<Rightarrow> [] | Some ps \<Rightarrow> ps) @ default_excludes"

definition all_includes :: "string list option \<Rightarrow> string list" where
  "all_includes include_patterns =
     (case include_patterns of None \<Rightarrow> [''*''] | Some ps \<Rightarrow> if ps = [] then [''*''] else ps)"

text \<open>A file is compliant when \<^verbatim>\<open>has_eof_newline\<close> returns true for it.\<close>

definition compliant :: "world \<Rightarrow> path \<Rightarrow> bool" where
  "compliant w f = (has_eof_newline w f = Inr True)"

text \<open>The per-file line of \<^verbatim>\<open>--show-details\<close>, for a file under the project root.\<close>

definition detail_line :: "world \<Rightarrow> path \<Rightarrow> path \<Rightarrow> msg" where
  "detail_line w project_root f =
     (if compliant w f then DetailOk (drop (length project_root) f)
      else DetailMissing (drop (length project_root) f))"

subsection \<open>Example inputs\<close>

text \<open>
  A matcher for the examples: \<^verbatim>\<open>fnmatch\<close> on patterns of literal characters, \<^verbatim>\<open>*\<close> (any
  run of characters) and \<^verbatim>\<open>?\<close> (any one character).
\<close>

fun glob :: "string \<Rightarrow> string \<Rightarrow> bool" where
  "glob [] [] = True"
| "glob (c # cs) [] = False"
| "glob [] (p # ps) = (p = CHR ''*'' \<and> glob [] ps)"
| "glob (c # cs) (p # ps) =
     (if p = CHR ''*'' then glob (c # cs) ps \<or> glob cs (p # ps)
      else if p = CHR ''?'' then glob cs ps
      else p = c \<and> glob cs ps)"

definition empty_world :: world where
  "empty_world =
     \<lparr>data = Map.empty, dirs = {}, unreadable = {}, unwritable = {},
      listing = DirNode [] [], writes = [], stdout = []\<rparr>"

text \<open>
  A project \<^verbatim>\<open>/proj\<close> with a compliant \<^verbatim>\<open>a.txt\<close>, a \<^verbatim>\<open>b.py\<close> without a final newline, a
  \<^verbatim>\<open>build\<close> directory, a binary file, and a list file that names a file outside the project.
\<close>

definition ex_root :: path where
  "ex_root = [''proj'']"

definition ex_world :: world where
  "ex_world = empty_world
     \<lparr>data := [[''proj'', ''CMakeLists.txt''] \<mapsto> ''project(x)'' @ [LF],
               [''proj'', ''a.txt''] \<mapsto> ''ok'' @ [LF],
               [''proj'', ''b.py''] \<mapsto> ''x = 1'',
               [''proj'', ''empty.md''] \<mapsto> [],
               [''proj'', ''build'', ''gen.py''] \<mapsto> ''y = 2'',
               [''proj'', ''src'', ''c.cpp''] \<mapsto> ''int x;'' @ [CR, LF],
               [''proj'', ''src'', ''blob''] \<mapsto> [CHR ''a'', NUL],
               [''proj'', ''list.txt''] \<mapsto> ''/tmp/ok.txt'' @ [LF],
               [''tmp'', ''ok.txt''] \<mapsto> ''fine'' @ [LF]],
      dirs := {[''proj''], [''proj'', ''build''], [''proj'', ''src''], [''tmp'']},
      listing := DirNode [(''build'', DirNode [] [''gen.py'']),
                          (''src'', DirNode [] [''c.cpp'', ''blob''])]
                   [''CMakeLists.txt'', ''a.txt'', ''b.py'', ''empty.md'', ''list.txt'']\<rparr>"

definition ex_args :: args where
  "ex_args =
     \<lparr>action = Check, filter_arg = None, filter_from_file = None, exclude = None,
      backup = False, show_details = False, quiet = False\<rparr>"

section \<open>Properties\<close>

subsection \<open>Reading a file: has\_eof\_newline and should\_check\_file\<close>

text \<open>
  Opening a file fails with \<^verbatim>\<open>OSError\<close> only, so the handlers of both methods catch every
  failure; each method is then a case distinction on the result of the read.
\<close>

lemma open_rb_error: "open_rb w p = Inl e \<Longrightarrow> e = OSError"
  by (auto simp: open_rb_def split: if_splits option.splits)

lemma last_byte: "content \<noteq> [] \<Longrightarrow> drop (length content - Suc 0) content = [last content]"
  by (induction content rule: rev_induct) auto

lemma has_eof_newline_open:
  "has_eof_newline w p =
     (case open_rb w p of
        Inl e \<Rightarrow> Inr False
      | Inr content \<Rightarrow> Inr (content = [] \<or> last content = LF \<or> last content = CR))"
proof (cases "open_rb w p")
  case (Inl e)
  then have "e = OSError" by (rule open_rb_error)
  with Inl show ?thesis by (simp add: has_eof_newline_def)
next
  case (Inr content)
  then show ?thesis
    by (cases "content = []") (auto simp: has_eof_newline_def Let_def last_byte LF_def CR_def)
qed

lemma ends_with_last: "ends_with content (s @ [b]) \<Longrightarrow> content \<noteq> [] \<and> last content = b"
proof -
  assume a: "ends_with content (s @ [b])"
  then have "content = take (length content - length (s @ [b])) content @ (s @ [b])"
    unfolding ends_with_def by (metis append_take_drop_id)
  then obtain pre where "content = pre @ s @ [b]" by blast
  then show ?thesis by simp
qed

lemma should_check_file_open:
  "should_check_file w p =
     (if lower (path_suffix p) \<in> text_extensions \<or> path_name p \<in> special_files then Inr True
      else case open_rb w p of
             Inl e \<Rightarrow> Inr False
           | Inr content \<Rightarrow> Inr (NUL \<notin> set (take 1024 content)))"
proof (cases "open_rb w p")
  case (Inl e)
  then have "e = OSError" by (rule open_rb_error)
  with Inl show ?thesis by (simp add: should_check_file_def)
next
  case (Inr content)
  then show ?thesis by (auto simp: should_check_file_def Let_def)
qed

text \<open>
  C2. For every readable file, \<^verbatim>\<open>has_eof_newline\<close> returns true when the file is empty, and
  otherwise returns true exactly when the final byte is a line feed or a carriage return;
  a file that ends in carriage return, line feed is covered by its final byte.
\<close>

theorem has_eof_newline_readable:
  assumes "open_rb w p = Inr content"
  shows "(content = [] \<longrightarrow> has_eof_newline w p = Inr True) \<and>
         (content \<noteq> [] \<longrightarrow>
            has_eof_newline w p = Inr (last content = LF \<or> last content = CR)) \<and>
         (ends_with content [CR, LF] \<longrightarrow> has_eof_newline w p = Inr True)"
proof -
  have "ends_with content [CR, LF] \<Longrightarrow> content \<noteq> [] \<and> last content = LF"
    using ends_with_last[of content "[CR]" LF] by simp
  then show ?thesis using assms by (auto simp: has_eof_newline_open)
qed

text \<open>
  The three cases on the example project: an empty file, a file without a final newline,
  and a file that ends in carriage return, line feed.
\<close>

theorem has_eof_newline_readable_witness:
  "open_rb ex_world [''proj'', ''empty.md''] = Inr [] \<and>
   has_eof_newline ex_world [''proj'', ''empty.md''] = Inr True \<and>
   open_rb ex_world [''proj'', ''b.py''] = Inr ''x = 1'' \<and>
   has_eof_newline ex_world [''proj'', ''b.py''] = Inr False \<and>
   open_rb ex_world [''proj'', ''src'', ''c.cpp''] = Inr (''int x;'' @ [CR, LF]) \<and>
   ends_with (''int x;'' @ [CR, LF]) [CR, LF] \<and>
   has_eof_newline ex_world [''proj'', ''src'', ''c.cpp''] = Inr True"
proof -
  have a: "open_rb ex_world [''proj'', ''empty.md''] = Inr []"
    and b: "open_rb ex_world [''proj'', ''b.py''] = Inr ''x = 1''"
    and c: "open_rb ex_world [''proj'', ''src'', ''c.cpp''] = Inr (''int x;'' @ [CR, LF])"
    by (simp_all add: open_rb_def ex_world_def empty_world_def)
  have e: "ends_with (''int x;'' @ [CR, LF]) [CR, LF]"
    by (simp add: ends_with_def)
  show ?thesis
    using a b c e has_eof_newline_readable[OF a] has_eof_newline_readable[OF b]
      has_eof_newline_readable[OF c]
    by (simp add: LF_def CR_def)
qed

text \<open>
  C6. A failure to open or read a file never reaches the caller: both methods always
  return a boolean. When the content heuristic of \<^verbatim>\<open>should_check_file\<close> runs (neither the
  extension nor the name decides) and the read fails, the file is not checkable; when the
  read of \<^verbatim>\<open>has_eof_newline\<close> fails, the file is reported as non-compliant.
\<close>

theorem io_failures_are_results:
  "(\<exists>b. should_check_file w p = Inr b) \<and>
   (\<exists>b. has_eof_newline w p = Inr b) \<and>
   (isl (open_rb w p) \<and> lower (path_suffix p) \<notin> text_extensions \<and> path_name p \<notin> special_files
      \<longrightarrow> should_check_file w p = Inr False) \<and>
   (isl (open_rb w p) \<longrightarrow> has_eof_newline w p = Inr False)"
  by (cases "open_rb w p") (auto simp: should_check_file_open has_eof_newline_open)

text \<open>
  An unreadable file without extension: not checkable, and non-compliant.
\<close>

theorem io_failures_are_results_witness:
  "isl (open_rb (ex_world\<lparr>unreadable := {[''proj'', ''src'', ''blob'']}\<rparr>) [''proj'', ''src'', ''blob'']) \<and>
   lower (path_suffix [''proj'', ''src'', ''blob'']) \<notin> text_extensions \<and>
   path_name [''proj'', ''src'', ''blob''] \<notin> special_files \<and>
   should_check_file (ex_world\<lparr>unreadable := {[''proj'', ''src'', ''blob'']}\<rparr>)
     [''proj'', ''src'', ''blob''] = Inr False \<and>
   has_eof_newline (ex_world\<lparr>unreadable := {[''proj'', ''src'', ''blob'']}\<rparr>)
     [''proj'', ''src'', ''blob''] = Inr False"
proof -
  let ?w = "ex_world\<lparr>unreadable := {[''proj'', ''src'', ''blob'']}\<rparr>"
  let ?p = "[''proj'', ''src'', ''blob'']"
  have a: "isl (open_rb ?w ?p)"
    by (simp add: open_rb_def)
  have b: "lower (path_suffix ?p) \<notin> text_extensions"
    by (simp add: lower_def path_suffix_def path_name_def suffix_of_def text_extensions_def)
  have c: "path_name ?p \<notin> special_files"
    by (simp add: path_name_def special_files_def)
  show ?thesis
    using a b c io_failures_are_results[of ?w ?p] by simp
qed

text \<open>
  C7. For a file whose extension is not in the allow-list and whose name is not a special
  file name, \<^verbatim>\<open>should_check_file\<close> is decided by the content: the file is checkable exactly
  when its first \<open>min(size, 1024)\<close> bytes hold no null byte; an empty file is checkable.
\<close>

theorem should_check_file_heuristic:
  assumes "lower (path_suffix p) \<notin> text_extensions"
      and "path_name p \<notin> special_files"
      and "open_rb w p = Inr content"
  shows "should_check_file w p = Inr (NUL \<notin> set (take (min (length content) 1024) content)) \<and>
         (content = [] \<longrightarrow> should_check_file w p = Inr True)"
proof -
  have "take (min (length content) 1024) content = take 1024 content"
    by (simp add: min_def)
  with assms show ?thesis by (auto simp: should_check_file_open)
qed

text \<open>
  A file with a null byte, an empty file and a text file, all named \<^verbatim>\<open>blob\<close>.
\<close>

theorem should_check_file_heuristic_witness:
  "lower (path_suffix [''proj'', ''src'', ''blob'']) \<notin> text_extensions \<and>
   path_name [''proj'', ''src'', ''blob''] \<notin> special_files \<and>
   open_rb ex_world [''proj'', ''src'', ''blob''] = Inr [CHR ''a'', NUL] \<and>
   should_check_file ex_world [''proj'', ''src'', ''blob''] = Inr False \<and>
   open_rb (ex_world\<lparr>data := (data ex_world)([''proj'', ''src'', ''blob''] \<mapsto> [])\<rparr>)
     [''proj'', ''src'', ''blob''] = Inr [] \<and>
   should_check_file (ex_world\<lparr>data := (data ex_world)([''proj'', ''src'', ''blob''] \<mapsto> [])\<rparr>)
     [''proj'', ''src'', ''blob''] = Inr True \<and>
   open_rb (ex_world\<lparr>data := (data ex_world)([''proj'', ''src'', ''blob''] \<mapsto> ''text'')\<rparr>)
     [''proj'', ''src'', ''blob''] = Inr ''text'' \<and>
   should_check_file (ex_world\<lparr>data := (data ex_world)([''proj'', ''src'', ''blob''] \<mapsto> ''text'')\<rparr>)
     [''proj'', ''src'', ''blob''] = Inr True"
proof -
  let ?p = "[''proj'', ''src'', ''blob'']"
  let ?w1 = "ex_world\<lparr>data := (data ex_world)(?p \<mapsto> [])\<rparr>"
  let ?w2 = "ex_world\<lparr>data := (data ex_world)(?p \<mapsto> ''text'')\<rparr>"
  have b: "lower (path_suffix ?p) \<notin> text_extensions"
    by (simp add: lower_def path_suffix_def path_name_def suffix_of_def text_extensions_def)
  have c: "path_name ?p \<notin> special_files"
    by (simp add: path_name_def special_files_def)
  have o0: "open_rb ex_world ?p = Inr [CHR ''a'', NUL]"
    and o1: "open_rb ?w1 ?p = Inr []"
    and o2: "open_rb ?w2 ?p = Inr ''text''"
    by (simp_all add: open_rb_def ex_world_def empty_world_def)
  show ?thesis
    using b c o0 o1 o2 should_check_file_heuristic[OF b c o0]
      should_check_file_heuristic[OF b c o1] should_check_file_heuristic[OF b c o2]
    by (simp add: NUL_def)
qed

subsection \<open>fix\_eof\_newline\<close>

text \<open>
  The suffix of a name starts at a dot of the name, so appending \<^verbatim>\<open>.bak\<close> to the suffix of
  a path that names a file gives the backup path, a path other than the file's.
\<close>

lemma rfind_Some: "rfind c xs = Some i \<Longrightarrow> i < length xs \<and> xs ! i = c"
  by (induction xs arbitrary: i) (auto split: option.splits if_splits)

lemma suffix_of_cases:
  "suffix_of nm = [] \<or> (\<exists>i. suffix_of nm = drop i nm \<and> i < length nm \<and> nm ! i = CHR ''.'')"
  by (auto simp: suffix_of_def split: option.splits dest: rfind_Some)

lemma suffix_of_props:
  "set (suffix_of nm) \<subseteq> set nm"
  "suffix_of nm \<noteq> [] \<Longrightarrow> hd (suffix_of nm) = CHR ''.''"
  "take (length nm - length (suffix_of nm)) nm @ suffix_of nm = nm"
proof -
  show "set (suffix_of nm) \<subseteq> set nm"
    using suffix_of_cases[of nm] by (auto dest: in_set_dropD)
  show "suffix_of nm \<noteq> [] \<Longrightarrow> hd (suffix_of nm) = CHR ''.''"
    using suffix_of_cases[of nm] by (auto simp: hd_drop_conv_nth)
  show "take (length nm - length (suffix_of nm)) nm @ suffix_of nm = nm"
    using suffix_of_cases[of nm] by auto
qed

lemma with_suffix_bak:
  assumes "names_file p"
  shows "with_suffix p (path_suffix p @ ''.bak'') = Inr (backup_path p)"
proof -
  let ?nm = "path_name p"
  let ?old = "suffix_of ?nm"
  from assms have nm: "?nm \<noteq> []" and sep: "CHR ''/'' \<notin> set ?nm"
    by (simp_all add: names_file_def)
  from sep suffix_of_props(1)[of ?nm] have c1: "CHR ''/'' \<notin> set (?old @ ''.bak'')"
    by auto
  have c2: "hd (?old @ ''.bak'') = CHR ''.''"
    using suffix_of_props(2)[of ?nm] by (cases "?old = []") auto
  have c3: "?old @ ''.bak'' \<noteq> ''.''"
    by (cases ?old) auto
  have c4: "take (length ?nm - length ?old) ?nm @ ?old @ ''.bak'' = ?nm @ ''.bak''"
    using suffix_of_props(3)[of ?nm] by (metis append.assoc)
  show ?thesis
    using nm c1 c2 c3 c4
    by (simp add: with_suffix_def path_suffix_def backup_path_def)
qed

lemma backup_path_neq: "path_name p \<noteq> [] \<Longrightarrow> backup_path p \<noteq> p"
proof
  assume nm: "path_name p \<noteq> []" and eq: "backup_path p = p"
  from nm have "p \<noteq> []" by (auto simp: path_name_def)
  then have "p = butlast p @ [last p]" by simp
  with eq have "path_name p @ ''.bak'' = last p"
    unfolding backup_path_def by (metis append1_eq_conv)
  with \<open>p \<noteq> []\<close> show False by (simp add: path_name_def)
qed

lemma open_rb_store_other: "q \<noteq> p \<Longrightarrow> open_rb (store q c w) p = open_rb w p"
  by (simp add: open_rb_def store_def)

lemma open_rb_store_same:
  "open_rb w p = Inr c0 \<Longrightarrow> open_rb (store p c w) p = Inr c"
  by (auto simp: open_rb_def store_def split: if_splits option.splits)

lemma unwritable_store [simp]: "unwritable (store q c w) = unwritable w"
  by (simp add: store_def)

lemma dirs_store [simp]: "dirs (store q c w) = dirs w"
  by (simp add: store_def)

lemma endswith_newline:
  "content \<noteq> [] \<Longrightarrow> endswith content [[LF], [CR, LF], [CR]] = (last content = LF \<or> last content = CR)"
proof -
  assume ne: "content \<noteq> []"
  have a: "ends_with content [b] = (last content = b)" for b
    using ne by (auto simp: ends_with_def last_byte Suc_le_eq)
  have b: "ends_with content [CR, LF] \<Longrightarrow> last content = LF"
    using ends_with_last[of content "[CR]" LF] by simp
  show ?thesis using a b by (auto simp: endswith_def)
qed

text \<open>
  What \<^verbatim>\<open>fix_eof_newline\<close> does to a readable file, without and with a backup.
\<close>

lemma fix_no_backup:
  assumes "open_rb w p = Inr content"
  shows "fix_eof_newline p False w =
     (if content = [] \<or> last content = LF \<or> last content = CR then (Inr True, w)
      else if p \<in> unwritable w \<or> p \<in> dirs w
      then (Inr False, print (ErrorFixing p OSError) w)
      else (Inr True, store p (content @ [LF]) w))"
  using assms
  by (auto simp: fix_eof_newline_def except_OSError_def io_bind_def io_when_def io_return_def
        io_read_def io_print_def write_wb_def endswith_newline)

lemma fix_backup_ok:
  assumes "names_file p" and "open_rb w p = Inr content"
      and "backup_path p \<notin> unwritable w" and "backup_path p \<notin> dirs w"
  shows "fix_eof_newline p True w =
     (if content = [] \<or> last content = LF \<or> last content = CR
      then (Inr True, store (backup_path p) content w)
      else if p \<in> unwritable w \<or> p \<in> dirs w
      then (Inr False, print (ErrorFixing p OSError) (store (backup_path p) content w))
      else (Inr True, store p (content @ [LF]) (store (backup_path p) content w)))"
proof -
  from assms(1) have neq: "backup_path p \<noteq> p" and neq': "p \<noteq> backup_path p"
    using backup_path_neq[of p] by (auto simp: names_file_def)
  have rd: "open_rb (store (backup_path p) content w) p = Inr content"
    using assms(2) neq by (simp add: open_rb_store_other)
  show ?thesis
    using assms neq' rd
    by (auto simp: fix_eof_newline_def except_OSError_def io_bind_def io_when_def io_return_def
          io_read_def io_print_def io_of_def write_wb_def copy2_def endswith_newline with_suffix_bak)
qed

lemma copy2_fails: "fst (copy2 src dst w) = Inl e \<Longrightarrow> copy2 src dst w = (Inl OSError, w)"
  by (auto simp: copy2_def write_wb_def Let_def split: if_splits sum.splits dest: open_rb_error)

text \<open>
  When the backup path is a directory, the copy goes into it, under the name of the file.
\<close>

lemma copy2_into_directory:
  assumes "dst \<in> dirs w" and "open_rb w src = Inr content"
      and "dst @ [path_name src] \<notin> unwritable w" and "dst @ [path_name src] \<notin> dirs w"
      and "src \<noteq> dst @ [path_name src]"
  shows "copy2 src dst w = (Inr (), store (dst @ [path_name src]) content w)"
  using assms by (simp add: copy2_def write_wb_def)

lemma fix_backup_fails:
  assumes "names_file p" and "fst (copy2 p (backup_path p) w) = Inl e"
  shows "fix_eof_newline p True w = (Inr False, print (ErrorFixing p OSError) w)"
  using copy2_fails[OF assms(2)] assms(1)
  by (simp add: fix_eof_newline_def except_OSError_def io_bind_def io_when_def io_return_def
        io_print_def io_of_def with_suffix_bak)

text \<open>
  C1, as stated, fails. With backup, the second call on \<^verbatim>\<open>b.py\<close> of the example project
  succeeds but writes: it copies the fixed file over the backup of the first call. And the
  call does not succeed on a file that cannot be opened for writing.
\<close>

theorem fix_second_call_rewrites_backup:
  "open_rb ex_world [''proj'', ''b.py''] = Inr ''x = 1'' \<and>
   fst (fix_eof_newline [''proj'', ''b.py''] True ex_world) = Inr True \<and>
   writes (snd (fix_eof_newline [''proj'', ''b.py''] True ex_world)) =
     [[''proj'', ''b.py.bak''], [''proj'', ''b.py'']] \<and>
   data (snd (fix_eof_newline [''proj'', ''b.py''] True ex_world)) [''proj'', ''b.py.bak''] =
     Some ''x = 1'' \<and>
   fst (fix_eof_newline [''proj'', ''b.py''] True
          (snd (fix_eof_newline [''proj'', ''b.py''] True ex_world))) = Inr True \<and>
   writes (snd (fix_eof_newline [''proj'', ''b.py''] True
                  (snd (fix_eof_newline [''proj'', ''b.py''] True ex_world)))) =
     [[''proj'', ''b.py.bak''], [''proj'', ''b.py''], [''proj'', ''b.py.bak'']] \<and>
   data (snd (fix_eof_newline [''proj'', ''b.py''] True
                (snd (fix_eof_newline [''proj'', ''b.py''] True ex_world))))
     [''proj'', ''b.py.bak''] = Some (''x = 1'' @ [LF]) \<and>
   fst (fix_eof_newline [''proj'', ''b.py''] False
          (ex_world\<lparr>unwritable := {[''proj'', ''b.py'']}\<rparr>)) = Inr False"
  by code_simp

text \<open>
  C1, amended. For a file that can be read and written, whose content \<open>B\<close> is not empty
  and does not end in a line feed or a carriage return, \<^verbatim>\<open>fix_eof_newline\<close>, without backup
  or with a backup path that can be written, succeeds and leaves the file with exactly \<open>B\<close>
  followed by one line feed. A second call on the result succeeds and does not write the
  file: without backup it changes nothing, with backup it writes the backup copy again, and
  nothing else.
\<close>

theorem fix_appends_newline_once:
  assumes "open_rb w p = Inr B" and "B \<noteq> []" and "last B \<noteq> LF" and "last B \<noteq> CR"
      and "p \<notin> unwritable w" and "p \<notin> dirs w"
      and "create_backup \<longrightarrow>
             names_file p \<and> backup_path p \<notin> unwritable w \<and> backup_path p \<notin> dirs w"
  shows "fix_eof_newline p create_backup w =
           (Inr True, store p (B @ [LF]) (backed_up create_backup p B w)) \<and>
         data (store p (B @ [LF]) (backed_up create_backup p B w)) p = Some (B @ [LF]) \<and>
         fix_eof_newline p create_backup (store p (B @ [LF]) (backed_up create_backup p B w)) =
           (Inr True,
            backed_up create_backup p (B @ [LF])
              (store p (B @ [LF]) (backed_up create_backup p B w))) \<and>
         data (backed_up create_backup p (B @ [LF])
                 (store p (B @ [LF]) (backed_up create_backup p B w))) p = Some (B @ [LF]) \<and>
         writes (backed_up create_backup p (B @ [LF])
                   (store p (B @ [LF]) (backed_up create_backup p B w))) =
           writes (store p (B @ [LF]) (backed_up create_backup p B w)) @
             (if create_backup then [backup_path p] else [])"
proof (cases create_backup)
  case False
  let ?w1 = "store p (B @ [LF]) w"
  have first: "fix_eof_newline p False w = (Inr True, ?w1)"
    using assms(1-6) by (simp add: fix_no_backup)
  have rd: "open_rb ?w1 p = Inr (B @ [LF])"
    using assms(1) by (rule open_rb_store_same)
  have second: "fix_eof_newline p False ?w1 = (Inr True, ?w1)"
    by (simp add: fix_no_backup[OF rd])
  show ?thesis
    using False first second by (simp add: backed_up_def store_def)
next
  case True
  with assms(7) have nf: "names_file p"
    and bw: "backup_path p \<notin> unwritable w" and bd: "backup_path p \<notin> dirs w"
    by simp_all
  from nf have neq: "backup_path p \<noteq> p"
    using backup_path_neq[of p] by (simp add: names_file_def)
  let ?w0 = "store (backup_path p) B w"
  let ?w1 = "store p (B @ [LF]) ?w0"
  have first: "fix_eof_newline p True w = (Inr True, ?w1)"
    using assms(2-6) by (simp add: fix_backup_ok[OF nf assms(1) bw bd])
  have rd0: "open_rb ?w0 p = Inr B"
    using assms(1) neq by (simp add: open_rb_store_other)
  have rd: "open_rb ?w1 p = Inr (B @ [LF])"
    using rd0 by (rule open_rb_store_same)
  have bw1: "backup_path p \<notin> unwritable ?w1" and bd1: "backup_path p \<notin> dirs ?w1"
    using bw bd by simp_all
  have second: "fix_eof_newline p True ?w1 = (Inr True, store (backup_path p) (B @ [LF]) ?w1)"
    by (simp add: fix_backup_ok[OF nf rd bw1 bd1])
  show ?thesis
    using True first second neq by (simp add: backed_up_def store_def)
qed

text \<open>
  The file \<^verbatim>\<open>b.py\<close> of the example project, without and with backup.
\<close>

theorem fix_appends_newline_once_witness:
  "open_rb ex_world [''proj'', ''b.py''] = Inr ''x = 1'' \<and>
   [''proj'', ''b.py''] \<notin> unwritable ex_world \<and>
   [''proj'', ''b.py''] \<notin> dirs ex_world \<and>
   fix_eof_newline [''proj'', ''b.py''] False ex_world =
     (Inr True, store [''proj'', ''b.py''] (''x = 1'' @ [LF]) ex_world) \<and>
   fix_eof_newline [''proj'', ''b.py''] False (store [''proj'', ''b.py''] (''x = 1'' @ [LF]) ex_world) =
     (Inr True, store [''proj'', ''b.py''] (''x = 1'' @ [LF]) ex_world) \<and>
   names_file [''proj'', ''b.py''] \<and>
   backup_path [''proj'', ''b.py''] = [''proj'', ''b.py.bak''] \<and>
   [''proj'', ''b.py.bak''] \<notin> unwritable ex_world \<and>
   [''proj'', ''b.py.bak''] \<notin> dirs ex_world \<and>
   fix_eof_newline [''proj'', ''b.py''] True ex_world =
     (Inr True,
      store [''proj'', ''b.py''] (''x = 1'' @ [LF])
        (store [''proj'', ''b.py.bak''] ''x = 1'' ex_world)) \<and>
   fix_eof_newline [''proj'', ''b.py''] True
       (store [''proj'', ''b.py''] (''x = 1'' @ [LF])
          (store [''proj'', ''b.py.bak''] ''x = 1'' ex_world)) =
     (Inr True,
      store [''proj'', ''b.py.bak''] (''x = 1'' @ [LF])
        (store [''proj'', ''b.py''] (''x = 1'' @ [LF])
           (store [''proj'', ''b.py.bak''] ''x = 1'' ex_world)))"
proof -
  let ?p = "[''proj'', ''b.py'']"
  have a: "open_rb ex_world ?p = Inr ''x = 1''"
    by (simp add: open_rb_def ex_world_def empty_world_def)
  have b: "?p \<notin> unwritable ex_world" "?p \<notin> dirs ex_world"
    by (simp_all add: ex_world_def empty_world_def)
  have c: "''x = 1'' \<noteq> []" "last ''x = 1'' \<noteq> LF" "last ''x = 1'' \<noteq> CR"
    by (simp_all add: LF_def CR_def)
  have n: "names_file ?p"
    by (simp add: names_file_def path_name_def)
  have k: "backup_path ?p = [''proj'', ''b.py.bak'']"
    by (simp add: backup_path_def path_name_def)
  have u: "backup_path ?p \<notin> unwritable ex_world" "backup_path ?p \<notin> dirs ex_world"
    by (simp_all add: k ex_world_def empty_world_def)
  have h0: "False \<longrightarrow>
      names_file ?p \<and> backup_path ?p \<notin> unwritable ex_world \<and> backup_path ?p \<notin> dirs ex_world"
    by simp
  have h1: "True \<longrightarrow>
      names_file ?p \<and> backup_path ?p \<notin> unwritable ex_world \<and> backup_path ?p \<notin> dirs ex_world"
    using n u by simp
  show ?thesis
    using a b n k u fix_appends_newline_once[OF a c b h0] fix_appends_newline_once[OF a c b h1]
    by (simp add: backed_up_def)
qed

text \<open>
  C9. With backup enabled, the backup copy, to the path with \<^verbatim>\<open>.bak\<close> appended, is written
  before the content is looked at: the backup path is the first path the call writes and
  it receives the content of the file. For an empty file and for a file that already ends
  in a newline the call succeeds and the backup is its only effect; the original is not
  written. The file can be read, and the backup path can be written and is not a
  directory (the copy would go into it).
\<close>

theorem fix_backup_written_first:
  assumes "names_file p" and "open_rb w p = Inr content"
      and "backup_path p \<notin> unwritable w" and "backup_path p \<notin> dirs w"
  shows "with_suffix p (path_suffix p @ ''.bak'') = Inr (backup_path p) \<and>
         (content = [] \<or> last content = LF \<or> last content = CR \<longrightarrow>
            fix_eof_newline p True w = (Inr True, store (backup_path p) content w)) \<and>
         data (store (backup_path p) content w) p = data w p \<and>
         data (snd (fix_eof_newline p True w)) (backup_path p) = Some content \<and>
         take (Suc (length (writes w))) (writes (snd (fix_eof_newline p True w))) =
           writes w @ [backup_path p]"
proof -
  from assms(1) have neq: "backup_path p \<noteq> p"
    using backup_path_neq[of p] by (simp add: names_file_def)
  then have neq': "p \<noteq> backup_path p" by auto
  show ?thesis
    using neq neq'
    by (simp add: with_suffix_bak[OF assms(1)] fix_backup_ok[OF assms] store_def print_def)
qed

text \<open>
  A file that ends in a newline, and an empty file.
\<close>

theorem fix_backup_written_first_witness:
  "names_file [''proj'', ''a.txt''] \<and>
   open_rb ex_world [''proj'', ''a.txt''] = Inr (''ok'' @ [LF]) \<and>
   backup_path [''proj'', ''a.txt''] = [''proj'', ''a.txt.bak''] \<and>
   [''proj'', ''a.txt.bak''] \<notin> unwritable ex_world \<and>
   [''proj'', ''a.txt.bak''] \<notin> dirs ex_world \<and>
   fix_eof_newline [''proj'', ''a.txt''] True ex_world =
     (Inr True, store [''proj'', ''a.txt.bak''] (''ok'' @ [LF]) ex_world) \<and>
   names_file [''proj'', ''empty.md''] \<and>
   open_rb ex_world [''proj'', ''empty.md''] = Inr [] \<and>
   backup_path [''proj'', ''empty.md''] = [''proj'', ''empty.md.bak''] \<and>
   [''proj'', ''empty.md.bak''] \<notin> unwritable ex_world \<and>
   [''proj'', ''empty.md.bak''] \<notin> dirs ex_world \<and>
   fix_eof_newline [''proj'', ''empty.md''] True ex_world =
     (Inr True, store [''proj'', ''empty.md.bak''] [] ex_world)"
proof -
  have n1: "names_file [''proj'', ''a.txt'']" and n2: "names_file [''proj'', ''empty.md'']"
    by (simp_all add: names_file_def path_name_def)
  have o1: "open_rb ex_world [''proj'', ''a.txt''] = Inr (''ok'' @ [LF])"
    and o2: "open_rb ex_world [''proj'', ''empty.md''] = Inr []"
    by (simp_all add: open_rb_def ex_world_def empty_world_def)
  have b1: "backup_path [''proj'', ''a.txt''] = [''proj'', ''a.txt.bak'']"
    and b2: "backup_path [''proj'', ''empty.md''] = [''proj'', ''empty.md.bak'']"
    by (simp_all add: backup_path_def path_name_def)
  have u1: "backup_path [''proj'', ''a.txt''] \<notin> unwritable ex_world"
    and u2: "backup_path [''proj'', ''empty.md''] \<notin> unwritable ex_world"
    by (simp_all add: ex_world_def empty_world_def)
  have d1: "backup_path [''proj'', ''a.txt''] \<notin> dirs ex_world"
    and d2: "backup_path [''proj'', ''empty.md''] \<notin> dirs ex_world"
    by (simp_all add: b1 b2 ex_world_def empty_world_def)
  show ?thesis
    using n1 n2 o1 o2 b1 b2 u1 u2 d1 d2 fix_backup_written_first[OF n1 o1 u1 d1]
      fix_backup_written_first[OF n2 o2 u2 d2]
    by (simp add: LF_def)
qed

text \<open>
  C10. With backup enabled, when the backup copy fails, \<^verbatim>\<open>fix_eof_newline\<close> reports the
  failure and returns false; no file is written, so the content of the original is as it
  was.
\<close>

theorem fix_backup_failure_keeps_original:
  assumes "names_file p" and "isl (fst (copy2 p (backup_path p) w))"
  shows "fix_eof_newline p True w = (Inr False, print (ErrorFixing p OSError) w) \<and>
         data (print (ErrorFixing p OSError) w) = data w \<and>
         writes (print (ErrorFixing p OSError) w) = writes w"
proof -
  from assms(2) obtain e where "fst (copy2 p (backup_path p) w) = Inl e"
    by (cases "fst (copy2 p (backup_path p) w)") auto
  then show ?thesis
    using fix_backup_fails[OF assms(1)] by (simp add: print_def)
qed

text \<open>
  The backup path of \<^verbatim>\<open>b.py\<close> cannot be written.
\<close>

theorem fix_backup_failure_keeps_original_witness:
  "names_file [''proj'', ''b.py''] \<and>
   isl (fst (copy2 [''proj'', ''b.py''] (backup_path [''proj'', ''b.py''])
               (ex_world\<lparr>unwritable := {[''proj'', ''b.py.bak'']}\<rparr>))) \<and>
   fix_eof_newline [''proj'', ''b.py''] True (ex_world\<lparr>unwritable := {[''proj'', ''b.py.bak'']}\<rparr>) =
     (Inr False,
      print (ErrorFixing [''proj'', ''b.py''] OSError)
        (ex_world\<lparr>unwritable := {[''proj'', ''b.py.bak'']}\<rparr>)) \<and>
   data (print (ErrorFixing [''proj'', ''b.py''] OSError)
           (ex_world\<lparr>unwritable := {[''proj'', ''b.py.bak'']}\<rparr>)) [''proj'', ''b.py''] =
     Some ''x = 1''"
proof -
  let ?w = "ex_world\<lparr>unwritable := {[''proj'', ''b.py.bak'']}\<rparr>"
  have n: "names_file [''proj'', ''b.py'']"
    by (simp add: names_file_def path_name_def)
  have c: "isl (fst (copy2 [''proj'', ''b.py''] (backup_path [''proj'', ''b.py'']) ?w))"
    by (simp add: copy2_def backup_path_def path_name_def open_rb_def write_wb_def
          ex_world_def empty_world_def)
  have d: "data ?w [''proj'', ''b.py''] = Some ''x = 1''"
    by (simp add: ex_world_def empty_world_def)
  show ?thesis
    using n c d fix_backup_failure_keeps_original[OF n c] by simp
qed

subsection \<open>discover\_files\<close>

text \<open>
  The walk refines the traversal of the specification: \<^verbatim>\<open>discover_files\<close> never raises, and
  returns, sorted, the files of the pruned traversal that pass the file filter.
\<close>

lemma relative_to_under: "relative_to (pr @ rel) pr = Inr rel"
  by (simp add: relative_to_def)

lemma should_check_file_total: "\<exists>b. should_check_file w p = Inr b"
  by (cases "open_rb w p") (auto simp: should_check_file_open)

lemma included_eq:
  "included fnm pr f (pr @ rel) inc =
     Inr (list_ex (\<lambda>pattern. fnm f pattern \<or> fnm (str_path rel) pattern) inc)"
  by (induction inc) (auto simp: relative_to_under)

lemma scan_files_eq:
  "scan_files fnm w pr inc exc (pr @ rdir) fns files =
     Inr (files @ map ((@) pr) (filter (keeps fnm w pr inc exc) (map (\<lambda>f. rdir @ [f]) fns)))"
proof (induction fns arbitrary: files)
  case Nil
  then show ?case by simp
next
  case (Cons f fns)
  obtain b where b: "should_check_file w (pr @ rdir @ [f]) = Inr b"
    using should_check_file_total by blast
  show ?case
    using b by (simp add: Cons.IH included_eq keeps_def Let_def)
qed

lemma append_section: "(@) (xs @ [y]) = (\<lambda>zs. xs @ y # zs)"
  by auto

lemma walked_append:
  "map ((@) rdir) (walked fnm exc (DirNode ds fns)) =
     map (\<lambda>f. rdir @ [f]) fns @
     concat (map (\<lambda>d. map ((@) (rdir @ [fst d])) (walked fnm exc (snd d))) (prune fnm exc ds))"
  by (simp add: prune_def map_concat o_def append_section)

lemma walk_eq_aux:
  "(\<forall>rdir. root = pr @ rdir \<longrightarrow>
      walk fnm w pr inc exc root t files =
        Inr (files @ map ((@) pr) (filter (keeps fnm w pr inc exc)
                                     (map ((@) rdir) (walked fnm exc t)))))"
  "(\<forall>rdir. root = pr @ rdir \<longrightarrow>
      walk_dirs fnm w pr inc exc root ds files =
        Inr (files @ concat (map (\<lambda>d. map ((@) pr) (filter (keeps fnm w pr inc exc)
                                     (map ((@) (rdir @ [fst d])) (walked fnm exc (snd d))))) ds)))"
proof (induction fnm w pr inc exc root t files and fnm w pr inc exc root ds files
       rule: walk_walk_dirs.induct)
  case (1 fnm w pr inc exc root ds fns files)
  show ?case
  proof (intro allI impI)
    fix rdir assume r: "root = pr @ rdir"
    let ?here = "files @ map ((@) pr) (filter (keeps fnm w pr inc exc) (map (\<lambda>f. rdir @ [f]) fns))"
    have s: "scan_files fnm w pr inc exc root fns files = Inr ?here"
      using r by (simp add: scan_files_eq)
    have "walk_dirs fnm w pr inc exc root (prune fnm exc ds) ?here =
        Inr (?here @ concat (map (\<lambda>d. map ((@) pr) (filter (keeps fnm w pr inc exc)
                (map ((@) (rdir @ [fst d])) (walked fnm exc (snd d))))) (prune fnm exc ds)))"
      using "1.IH"[OF s] r by blast
    then show "walk fnm w pr inc exc root (DirNode ds fns) files =
        Inr (files @ map ((@) pr) (filter (keeps fnm w pr inc exc)
               (map ((@) rdir) (walked fnm exc (DirNode ds fns)))))"
      using s by (simp only: walk.simps walked_append sum.case map_append filter_append
                    map_concat filter_concat map_map o_def append_assoc)
  qed
next
  case (2 fnm w pr inc exc root files)
  then show ?case by simp
next
  case (3 fnm w pr inc exc root d rest files)
  show ?case
  proof (intro allI impI)
    fix rdir assume r: "root = pr @ rdir"
    let ?one = "files @ map ((@) pr) (filter (keeps fnm w pr inc exc)
                  (map ((@) (rdir @ [fst d])) (walked fnm exc (snd d))))"
    have a: "walk fnm w pr inc exc (root @ [fst d]) (snd d) files = Inr ?one"
      using "3.IH"(1) r by simp
    have "walk_dirs fnm w pr inc exc root rest ?one =
        Inr (?one @ concat (map (\<lambda>d. map ((@) pr) (filter (keeps fnm w pr inc exc)
                (map ((@) (rdir @ [fst d])) (walked fnm exc (snd d))))) rest))"
      using "3.IH"(2)[OF a] r by blast
    then show "walk_dirs fnm w pr inc exc root (d # rest) files =
        Inr (files @ concat (map (\<lambda>d. map ((@) pr) (filter (keeps fnm w pr inc exc)
                (map ((@) (rdir @ [fst d])) (walked fnm exc (snd d))))) (d # rest)))"
      using a by simp
  qed
qed

lemma append_Nil_section: "(@) [] = (\<lambda>x. x)"
  by auto

lemma discover_files_eq:
  "discover_files fnm w pr inc exc =
     Inr (sort (map ((@) pr)
            (filter (keeps fnm w pr (all_includes inc) (all_excludes exc))
               (walked fnm (all_excludes exc) (listing w)))))"
  using walk_eq_aux(1)[of pr pr fnm w "all_includes inc" "all_excludes exc" "listing w" "[]"]
  by (simp add: discover_files_def all_includes_def all_excludes_def Let_def append_Nil_section)

lemma walked_unpruned:
  "rel \<in> set (walked fnm exc t) \<Longrightarrow>
     rel \<noteq> [] \<and> list_all (\<lambda>d. \<not> list_ex (\<lambda>pattern. fnm d pattern) exc) (butlast rel)"
proof (induction fnm exc t arbitrary: rel rule: walked.induct)
  case (1 fnm exc ds fns)
  from "1.prems" consider
      (leaf) f where "f \<in> set fns" "rel = [f]"
    | (sub) d rel' where "d \<in> set ds" "\<not> list_ex (\<lambda>pattern. fnm (fst d) pattern) exc"
        "rel' \<in> set (walked fnm exc (snd d))" "rel = fst d # rel'"
    by auto
  then show ?case
  proof cases
    case leaf
    then show ?thesis by simp
  next
    case sub
    from "1.IH"[of d rel'] sub
    have "rel' \<noteq> [] \<and> list_all (\<lambda>d. \<not> list_ex (\<lambda>pattern. fnm d pattern) exc) (butlast rel')"
      by simp
    with sub show ?thesis by simp
  qed
qed

text \<open>
  C4. For every project root and every list of exclude globs, no path that
  \<^verbatim>\<open>discover_files\<close> returns lies in a directory, at any depth below the root, whose name
  matches an exclude glob, the caller's or a built-in one.
\<close>

theorem discover_prunes_excluded_dirs:
  "\<exists>files. discover_files fnm w project_root include_patterns exclude_patterns = Inr files \<and>
     (\<forall>p \<in> set files. \<exists>rel. p = project_root @ rel \<and> rel \<noteq> [] \<and>
        (\<forall>d \<in> set (butlast rel).
           \<forall>pattern \<in> set ((case exclude_patterns of None \<Rightarrow> [] | Some ps \<Rightarrow> ps) @ default_excludes).
             \<not> fnm d pattern))"
proof -
  let ?exc = "all_excludes exclude_patterns"
  let ?files = "sort (map ((@) project_root)
            (filter (keeps fnm w project_root (all_includes include_patterns) ?exc)
               (walked fnm ?exc (listing w))))"
  have "\<exists>rel. p = project_root @ rel \<and> rel \<noteq> [] \<and>
          (\<forall>d \<in> set (butlast rel). \<forall>pattern \<in> set ?exc. \<not> fnm d pattern)"
    if "p \<in> set ?files" for p
  proof -
    from that obtain rel where rel: "p = project_root @ rel" "rel \<in> set (walked fnm ?exc (listing w))"
      by auto
    from walked_unpruned[OF rel(2)] have "rel \<noteq> []"
      and "\<forall>d \<in> set (butlast rel). \<forall>pattern \<in> set ?exc. \<not> fnm d pattern"
      by (auto simp: list_all_iff list_ex_iff)
    with rel(1) show ?thesis by blast
  qed
  then show ?thesis
    unfolding discover_files_eq[of fnm w project_root include_patterns exclude_patterns]
      all_excludes_def by blast
qed

text \<open>
  In the example project the file planted in \<^verbatim>\<open>build\<close> is not returned, and \<^verbatim>\<open>src/c.cpp\<close> is.
\<close>

theorem discover_prunes_excluded_dirs_witness:
  "discover_files glob ex_world ex_root None None =
     Inr [[''proj'', ''CMakeLists.txt''], [''proj'', ''a.txt''], [''proj'', ''b.py''],
          [''proj'', ''empty.md''], [''proj'', ''list.txt''], [''proj'', ''src'', ''c.cpp'']] \<and>
   glob ''build'' ''build'' \<and>
   ''build'' \<in> set (butlast [''build'', ''gen.py'']) \<and>
   [''proj'', ''build'', ''gen.py''] \<notin>
     set [[''proj'', ''CMakeLists.txt''], [''proj'', ''a.txt''], [''proj'', ''b.py''],
          [''proj'', ''empty.md''], [''proj'', ''list.txt''], [''proj'', ''src'', ''c.cpp'']] \<and>
   (\<exists>rel. [''proj'', ''src'', ''c.cpp''] = ex_root @ rel \<and> rel \<noteq> [] \<and>
      (\<forall>d \<in> set (butlast rel). \<forall>pattern \<in> set ([] @ default_excludes). \<not> glob d pattern))"
proof -
  let ?files = "[[''proj'', ''CMakeLists.txt''], [''proj'', ''a.txt''], [''proj'', ''b.py''],
          [''proj'', ''empty.md''], [''proj'', ''list.txt''], [''proj'', ''src'', ''c.cpp'']]"
  have e: "discover_files glob ex_world ex_root None None = Inr ?files"
    by code_simp
  from discover_prunes_excluded_dirs[of glob ex_world ex_root None None] e
  have "\<forall>p \<in> set ?files. \<exists>rel. p = ex_root @ rel \<and> rel \<noteq> [] \<and>
          (\<forall>d \<in> set (butlast rel). \<forall>pattern \<in> set ([] @ default_excludes). \<not> glob d pattern)"
    by simp
  then have "\<exists>rel. [''proj'', ''src'', ''c.cpp''] = ex_root @ rel \<and> rel \<noteq> [] \<and>
          (\<forall>d \<in> set (butlast rel). \<forall>pattern \<in> set ([] @ default_excludes). \<not> glob d pattern)"
    by simp
  with e show ?thesis by simp
qed

text \<open>
  C5. A file is returned exactly when it is met by the pruned traversal, its name or its
  path relative to the root matches an include glob, its bare name matches no exclude
  glob, and it is checkable. The relative path plays no part in the exclusion of a file.
\<close>

theorem discover_file_filters:
  "\<exists>files. discover_files fnm w project_root include_patterns exclude_patterns = Inr files \<and>
     (\<forall>p. p \<in> set files \<longleftrightarrow>
        (\<exists>rel \<in> set (walked fnm (all_excludes exclude_patterns) (listing w)).
           p = project_root @ rel \<and>
           (\<exists>pattern \<in> set (all_includes include_patterns).
              fnm (last rel) pattern \<or> fnm (str_path rel) pattern) \<and>
           (\<forall>pattern \<in> set (all_excludes exclude_patterns). \<not> fnm (last rel) pattern) \<and>
           should_check_file w p = Inr True))"
  unfolding discover_files_eq[of fnm w project_root include_patterns exclude_patterns]
  by (auto simp: keeps_def list_ex_iff)

text \<open>
  The exclude glob \<^verbatim>\<open>src/*\<close> matches the relative path of \<^verbatim>\<open>src/c.cpp\<close>, not its name: the
  file is returned.
\<close>

theorem discover_file_filters_witness:
  "discover_files glob ex_world ex_root None (Some [''src/*'']) =
     Inr [[''proj'', ''CMakeLists.txt''], [''proj'', ''a.txt''], [''proj'', ''b.py''],
          [''proj'', ''empty.md''], [''proj'', ''list.txt''], [''proj'', ''src'', ''c.cpp'']] \<and>
   glob (str_path [''src'', ''c.cpp'']) ''src/*'' \<and>
   (\<exists>rel \<in> set (walked glob (all_excludes (Some [''src/*''])) (listing ex_world)).
      [''proj'', ''src'', ''c.cpp''] = ex_root @ rel \<and>
      (\<exists>pattern \<in> set (all_includes None).
         glob (last rel) pattern \<or> glob (str_path rel) pattern) \<and>
      (\<forall>pattern \<in> set (all_excludes (Some [''src/*''])). \<not> glob (last rel) pattern) \<and>
      should_check_file ex_world [''proj'', ''src'', ''c.cpp''] = Inr True)"
proof -
  let ?files = "[[''proj'', ''CMakeLists.txt''], [''proj'', ''a.txt''], [''proj'', ''b.py''],
          [''proj'', ''empty.md''], [''proj'', ''list.txt''], [''proj'', ''src'', ''c.cpp'']]"
  have e: "discover_files glob ex_world ex_root None (Some [''src/*'']) = Inr ?files"
    by code_simp
  have g: "glob (str_path [''src'', ''c.cpp'']) ''src/*''"
    by code_simp
  from discover_file_filters[of glob ex_world ex_root None "Some [''src/*'']"] e
  have "\<forall>p. p \<in> set ?files \<longleftrightarrow>
        (\<exists>rel \<in> set (walked glob (all_excludes (Some [''src/*''])) (listing ex_world)).
           p = ex_root @ rel \<and>
           (\<exists>pattern \<in> set (all_includes None).
              glob (last rel) pattern \<or> glob (str_path rel) pattern) \<and>
           (\<forall>pattern \<in> set (all_excludes (Some [''src/*''])). \<not> glob (last rel) pattern) \<and>
           should_check_file ex_world p = Inr True)"
    by simp
  then have "[''proj'', ''src'', ''c.cpp''] \<in> set ?files \<longleftrightarrow>
        (\<exists>rel \<in> set (walked glob (all_excludes (Some [''src/*''])) (listing ex_world)).
           [''proj'', ''src'', ''c.cpp''] = ex_root @ rel \<and>
           (\<exists>pattern \<in> set (all_includes None).
              glob (last rel) pattern \<or> glob (str_path rel) pattern) \<and>
           (\<forall>pattern \<in> set (all_excludes (Some [''src/*''])). \<not> glob (last rel) pattern) \<and>
           should_check_file ex_world [''proj'', ''src'', ''c.cpp''] = Inr True)"
    by (rule spec)
  moreover have "[''proj'', ''src'', ''c.cpp''] \<in> set ?files" by simp
  ultimately show ?thesis using e g by blast
qed

subsection \<open>main in check mode\<close>

text \<open>
  \<^verbatim>\<open>check_files\<close> partitions the files by compliance; with \<^verbatim>\<open>--show-details\<close> it prints one
  line per file, which needs every file to lie under the project root.
\<close>

lemma has_eof_newline_compliant: "has_eof_newline w f = Inr (compliant w f)"
  by (cases "open_rb w f") (auto simp: compliant_def has_eof_newline_open)

lemma open_rb_stdout [simp]: "open_rb (w\<lparr>stdout := s\<rparr>) p = open_rb w p"
  by (simp add: open_rb_def)

lemma compliant_stdout [simp]: "compliant (w\<lparr>stdout := s\<rparr>) = compliant w"
  by (rule ext) (simp add: compliant_def has_eof_newline_open)

lemma detail_line_stdout [simp]: "detail_line (w\<lparr>stdout := s\<rparr>) = detail_line w"
  by (rule ext)+ (simp add: detail_line_def)

lemma relative_to_under_root:
  "under_root pr f \<Longrightarrow> relative_to f pr = Inr (drop (length pr) f)"
  by (simp add: relative_to_def under_root_def)

lemma io_prints_eq: "io_prints ms w = (Inr (), w\<lparr>stdout := stdout w @ ms\<rparr>)"
  by (induction ms arbitrary: w) (simp_all add: print_def)

lemma check_files_loop_eq:
  "sd \<longrightarrow> list_all (under_root pr) fs \<Longrightarrow>
   check_files_loop pr sd fs cs ns w =
     (Inr (cs @ filter (compliant w) fs, ns @ filter (\<lambda>f. \<not> compliant w f) fs),
      w\<lparr>stdout := stdout w @ (if sd then map (detail_line w pr) fs else [])\<rparr>)"
proof (induction fs arbitrary: cs ns w)
  case Nil
  then show ?case by simp
next
  case (Cons f fs)
  have tl: "sd \<longrightarrow> list_all (under_root pr) fs"
    using Cons.prems by simp
  note IH = Cons.IH[OF tl]
  show ?case
  proof (cases sd)
    case True
    with Cons.prems have "relative_to f pr = Inr (drop (length pr) f)"
      by (simp add: relative_to_under_root)
    moreover have "check_files_loop pr True fs cs' ns' w' =
        (Inr (cs' @ filter (compliant w') fs, ns' @ filter (\<lambda>f. \<not> compliant w' f) fs),
         w'\<lparr>stdout := stdout w' @ map (detail_line w' pr) fs\<rparr>)" for cs' ns' w'
      using IH[of cs' ns' w'] True by simp
    ultimately show ?thesis
      using True
      by (simp add: has_eof_newline_compliant io_bind_def io_when_def io_of_def
            io_print_def print_def detail_line_def)
  next
    case False
    moreover have "check_files_loop pr False fs cs' ns' w' =
        (Inr (cs' @ filter (compliant w') fs, ns' @ filter (\<lambda>f. \<not> compliant w' f) fs),
         w'\<lparr>stdout := stdout w'\<rparr>)" for cs' ns' w'
      using IH[of cs' ns' w'] False by simp
    ultimately show ?thesis
      by (simp add: has_eof_newline_compliant io_bind_def io_when_def io_return_def)
  qed
qed

lemma check_files_eq:
  "sd \<longrightarrow> list_all (under_root pr) fs \<Longrightarrow>
   check_files pr fs sd w =
     (Inr (filter (compliant w) fs, filter (\<lambda>f. \<not> compliant w f) fs),
      w\<lparr>stdout := stdout w @ (if sd then map (detail_line w pr) fs else [])\<rparr>)"
  by (simp add: check_files_def check_files_loop_eq)

lemma print_missing_eq:
  "list_all (under_root pr) fs \<Longrightarrow>
   print_missing pr fs w =
     (Inr (), w\<lparr>stdout := stdout w @ map (\<lambda>f. MissingFile (drop (length pr) f)) fs\<rparr>)"
  by (induction fs arbitrary: w)
     (simp_all add: relative_to_under_root io_bind_def io_of_def io_print_def print_def)

lemma check_action_quiet:
  assumes "quiet a"
      and "\<not> list_all (compliant w) files"
      and "show_details a \<longrightarrow> list_all (under_root pr) files"
  shows "check_action pr a files w =
           (Inr 1, w\<lparr>stdout := stdout w @
                      (if show_details a then map (detail_line w pr) files else []) @
                      [FixHint] @ (if backup a then [] else [BackupHint])\<rparr>)"
proof -
  from assms(2) have ne: "filter (\<lambda>f. \<not> compliant w f) files \<noteq> []"
    by (simp add: filter_empty_conv list_all_iff)
  show ?thesis
    using assms(1) ne
    by (simp add: check_action_def io_bind_def check_files_eq[OF assms(3)] io_when_def
          io_return_def io_print_def print_def)
qed

text \<open>
  C3, as stated, fails. With \<^verbatim>\<open>--check --quiet\<close> on the example project, where \<^verbatim>\<open>b.py\<close> is
  non-compliant, the process exits 1 and prints the two hints only: the list of
  non-compliant files is not printed.
\<close>

theorem check_quiet_omits_file_list:
  "action (ex_args\<lparr>quiet := True\<rparr>) = Check \<and>
   quiet (ex_args\<lparr>quiet := True\<rparr>) \<and>
   has_eof_newline ex_world [''proj'', ''b.py''] = Inr False \<and>
   files_to_check glob ex_root (ex_args\<lparr>quiet := True\<rparr>) ex_world =
     Inr [[''proj'', ''CMakeLists.txt''], [''proj'', ''a.txt''], [''proj'', ''b.py''],
          [''proj'', ''empty.md''], [''proj'', ''list.txt''], [''proj'', ''src'', ''c.cpp'']] \<and>
   fst (main glob ex_root (ex_args\<lparr>quiet := True\<rparr>) ex_world) = Inr 1 \<and>
   stdout (snd (main glob ex_root (ex_args\<lparr>quiet := True\<rparr>) ex_world)) = [FixHint, BackupHint]"
  by code_simp

text \<open>
  C3, amended. With \<^verbatim>\<open>--check --quiet\<close> and at least one non-compliant file, the process
  exits 1 and prints the remediation hint, followed by the backup hint unless \<^verbatim>\<open>--backup\<close>
  is given; the list of non-compliant files is not printed. With \<^verbatim>\<open>--show-details\<close> the
  per-file lines come first, for files under the project root.
\<close>

theorem check_quiet_prints_hint_only:
  assumes "path_exists w (project_root @ [''CMakeLists.txt''])"
      and "action a = Check" and "quiet a"
      and "files_to_check fnm project_root a w = Inr files"
      and "\<not> list_all (compliant w) files"
      and "show_details a \<longrightarrow> list_all (under_root project_root) files"
  shows "main fnm project_root a w =
           (Inr 1, w\<lparr>stdout := stdout w @
                      (if show_details a then map (detail_line w project_root) files else []) @
                      [FixHint] @ (if backup a then [] else [BackupHint])\<rparr>)"
proof -
  from assms(5) have "files \<noteq> []" by auto
  then show ?thesis
    using assms(1-4) check_action_quiet[OF assms(3) assms(5) assms(6)]
    by (simp add: main_def io_bind_def io_when_def io_return_def)
qed

text \<open>
  The example project.
\<close>

theorem check_quiet_prints_hint_only_witness:
  "path_exists ex_world (ex_root @ [''CMakeLists.txt'']) \<and>
   files_to_check glob ex_root (ex_args\<lparr>quiet := True\<rparr>) ex_world =
     Inr [[''proj'', ''CMakeLists.txt''], [''proj'', ''a.txt''], [''proj'', ''b.py''],
          [''proj'', ''empty.md''], [''proj'', ''list.txt''], [''proj'', ''src'', ''c.cpp'']] \<and>
   \<not> compliant ex_world [''proj'', ''b.py''] \<and>
   main glob ex_root (ex_args\<lparr>quiet := True\<rparr>) ex_world =
     (Inr 1, ex_world\<lparr>stdout := [FixHint, BackupHint]\<rparr>)"
proof -
  let ?a = "ex_args\<lparr>quiet := True\<rparr>"
  let ?files = "[[''proj'', ''CMakeLists.txt''], [''proj'', ''a.txt''], [''proj'', ''b.py''],
          [''proj'', ''empty.md''], [''proj'', ''list.txt''], [''proj'', ''src'', ''c.cpp'']]"
  have m: "path_exists ex_world (ex_root @ [''CMakeLists.txt''])"
    by code_simp
  have f: "files_to_check glob ex_root ?a ex_world = Inr ?files"
    by code_simp
  have n: "\<not> compliant ex_world [''proj'', ''b.py'']"
    by code_simp
  then have n': "\<not> list_all (compliant ex_world) ?files"
    by simp
  have a: "action ?a = Check" "quiet ?a" "show_details ?a \<longrightarrow> list_all (under_root ex_root) ?files"
    by (simp_all add: ex_args_def)
  have s: "stdout ex_world = []" "\<not> show_details ?a" "\<not> backup ?a"
    by (simp_all add: ex_world_def empty_world_def ex_args_def)
  show ?thesis
    using m f n check_quiet_prints_hint_only[OF m a(1) a(2) f n' a(3)] s
    by simp
qed

text \<open>
  Printing does not change what the selection and the checks read. For files under the
  project root, the exit status of check mode is 0 exactly when every selected file is
  compliant, and so 0 when no file is selected.
\<close>

lemma should_check_file_stdout [simp]:
  "should_check_file (w\<lparr>stdout := s\<rparr>) = should_check_file w"
  by (rule ext) (simp add: should_check_file_open)

lemma path_exists_stdout [simp]: "path_exists (w\<lparr>stdout := s\<rparr>) = path_exists w"
  by (rule ext) (simp add: path_exists_def)

lemma file_list_loop_stdout [simp]:
  "file_list_loop (w\<lparr>stdout := s\<rparr>) pr ls acc = file_list_loop w pr ls acc"
  by (induction ls arbitrary: acc) (simp_all add: Let_def split: sum.splits)

lemma keeps_stdout [simp]: "keeps fnm (w\<lparr>stdout := s\<rparr>) = keeps fnm w"
  by (rule ext)+ (simp add: keeps_def)

lemma files_to_check_stdout [simp]:
  "files_to_check fnm pr a (w\<lparr>stdout := s\<rparr>) = files_to_check fnm pr a w"
  by (simp add: files_to_check_def discover_files_eq split: option.splits sum.splits)

lemma check_action_status:
  assumes "list_all (under_root pr) files"
  shows "fst (check_action pr a files w) = Inr (if list_all (compliant w) files then 0 else 1)"
proof -
  let ?non = "filter (\<lambda>f. \<not> compliant w f) files"
  have non: "(?non = []) = list_all (compliant w) files"
    by (simp add: filter_empty_conv list_all_iff)
  have under: "list_all (under_root pr) (take 10 ?non)"
    using assms by (auto simp: list_all_iff dest: in_set_takeD)
  have cf: "check_files pr files (show_details a) w =
      (Inr (filter (compliant w) files, ?non),
       w\<lparr>stdout := stdout w @
          (if show_details a then map (detail_line w pr) files else [])\<rparr>)"
    using assms by (simp add: check_files_eq)
  show ?thesis
  proof (cases "list_all (compliant w) files")
    case True
    with non have "?non = []" by simp
    with True show ?thesis
      by (simp add: check_action_def io_bind_def cf io_when_def io_return_def io_print_def
            io_prints_eq)
  next
    case False
    with non have "?non \<noteq> []" by simp
    with False show ?thesis
      by (simp add: check_action_def io_bind_def cf io_when_def io_return_def io_print_def
            io_prints_eq print_def print_missing_eq[OF under])
  qed
qed

lemma check_exit_status_under_root:
  assumes "path_exists w (pr @ [''CMakeLists.txt''])"
      and "action a = Check"
      and "files_to_check fnm pr a w = Inr files"
      and "list_all (under_root pr) files"
  shows "exit_status (fst (main fnm pr a w)) = (if list_all (compliant w) files then 0 else 1)"
proof (cases "files = []")
  case True
  with assms(1-3) show ?thesis
    by (simp add: main_def io_bind_def io_when_def io_return_def io_print_def io_prints_eq
          exit_status_def)
next
  case False
  have st: "fst (check_action pr a files (w\<lparr>stdout := s\<rparr>)) =
              Inr (if list_all (compliant w) files then 0 else 1)" for s
    using check_action_status[OF assms(4), of a "w\<lparr>stdout := s\<rparr>"] by simp
  have st0: "fst (check_action pr a files w) =
              Inr (if list_all (compliant w) files then 0 else 1)"
    using check_action_status[OF assms(4), of a w] by simp
  show ?thesis
    using False assms(1-3) st st0
    by (simp add: main_def io_bind_def io_when_def io_return_def io_print_def io_prints_eq
          print_def exit_status_def split: option.splits)
qed

text \<open>
  C8. In check mode the process exits 0 exactly when every checked file is compliant.
  The code misses a case: a list file may name an absolute path outside the project root,
  and with \<^verbatim>\<open>--show-details\<close> the line printed for such a file raises \<^verbatim>\<open>ValueError\<close> in
  \<^verbatim>\<open>relative_to\<close>, which nothing catches. Here the only checked file is compliant and the
  process ends with status 1.
\<close>

theorem check_exit_status_outside_root:
  "files_to_check glob ex_root
     (ex_args\<lparr>filter_from_file := Some [''proj'', ''list.txt''], show_details := True\<rparr>) ex_world =
     Inr [[''tmp'', ''ok.txt'']] \<and>
   has_eof_newline ex_world [''tmp'', ''ok.txt''] = Inr True \<and>
   fst (main glob ex_root
          (ex_args\<lparr>filter_from_file := Some [''proj'', ''list.txt''], show_details := True\<rparr>)
          ex_world) = Inl ValueError \<and>
   exit_status (fst (main glob ex_root
          (ex_args\<lparr>filter_from_file := Some [''proj'', ''list.txt''], show_details := True\<rparr>)
          ex_world)) = 1"
  by code_simp

end
